theory Spec2Isabelle
  imports Main "HOL-Library.Word"
begin

section \<open>GoFast: a concurrent, range-based file downloader\<close>

text \<open>
  The program of \<^verbatim>\<open>main.go\<close> resolves the size of a remote resource with a HEAD
  request (\<^verbatim>\<open>GetFileSize\<close>), splits it into byte ranges (\<^verbatim>\<open>GetDownloadChunks\<close>) and
  fetches the ranges with one goroutine per range (\<^verbatim>\<open>DownloadChunks\<close>).  This theory
  embeds the three functions and proves the properties stated of them.

  Go's \<^verbatim>\<open>uint64\<close> and \<^verbatim>\<open>int64\<close> are \<^typ>\<open>64 word\<close> (read with \<^const>\<open>unat\<close> and
  \<^const>\<open>sint\<close>); a run-time panic and an \<^verbatim>\<open>error\<close> value are values of the model; the
  network, the file system and the scheduler are explicit parameters.  Slices are lists;
  \<^verbatim>\<open>make\<close> panics on a length that the Go runtime refuses, and a length it accepts
  is taken to be served by the machine.  The source's
  \<^verbatim>\<open>size\<close> is written \<open>sz\<close> and its \<^verbatim>\<open>end\<close> is written \<open>end'\<close>, the two names
  being taken in Isabelle.
\<close>

subsection \<open>Data model\<close>

text \<open>\<^verbatim>\<open>type DownloadChunk struct { Start uint64; End uint64 }\<close>\<close>

record DownloadChunk =
  Start :: "64 word"
  End :: "64 word"

text \<open>
  The run-time panics of the planner: \<^verbatim>\<open>integer divide by zero\<close> in
  \<^verbatim>\<open>size / threads\<close>, and \<^verbatim>\<open>makeslice: len out of range\<close> in
  \<^verbatim>\<open>make([]DownloadChunk, threads)\<close>.
\<close>

datatype panic = DivideByZero | MakeSliceLenOutOfRange

text \<open>The two failures of \<^verbatim>\<open>strconv.ParseInt\<close> (the \<^verbatim>\<open>Err\<close> field of its \<^verbatim>\<open>NumError\<close>).\<close>

datatype num_err = ErrSyntax | ErrRange

text \<open>
  The errors built with \<^verbatim>\<open>fmt.Errorf\<close>, one constructor for each format string, with
  the arguments of the format in their order:
  \<^item> \<^verbatim>\<open>"Error: Failed to make request to %s. %w"\<close> (url, cause), in \<^verbatim>\<open>GetFileSize\<close> and
    in the chunk task;
  \<^item> \<^verbatim>\<open>"Error: Failed to determine download size."\<close>;
  \<^item> \<^verbatim>\<open>"Error: Failed to determine download size. %w"\<close> (the parse error);
  \<^item> \<^verbatim>\<open>"Error: Failed to create file %s. %v"\<close> (output, cause);
  \<^item> \<^verbatim>\<open>"Error: Failed to create request for %s. %v"\<close> (url, cause);
  \<^item> \<^verbatim>\<open>"Error: Unsuccessful status code form %s (%d)."\<close> (url, status code);
  \<^item> \<^verbatim>\<open>"Error: Unsuccessful writing to file %s. %v"\<close> (output, cause), for a failed
    \<^verbatim>\<open>Seek\<close> and for a failed \<^verbatim>\<open>io.Copy\<close> alike.
\<close>

datatype error =
    FailedToMakeRequest string string
  | FailedToDetermineSize
  | FailedToDetermineSizeParse num_err
  | FailedToCreateFile string string
  | FailedToCreateRequest string string
  | UnsuccessfulStatusCode string int
  | UnsuccessfulWriting string string

text \<open>
  What an error message carries, for each argument of its format string; \<open>Offsets\<close>
  stands for a byte range, which no format string of the program receives.
\<close>

datatype detail = Url string | Path string | Status int | Offsets "64 word" "64 word" | Cause

fun error_detail :: "error \<Rightarrow> detail list" where
  "error_detail (FailedToMakeRequest url err) = [Url url, Cause]"
| "error_detail FailedToDetermineSize = []"
| "error_detail (FailedToDetermineSizeParse err) = [Cause]"
| "error_detail (FailedToCreateFile output err) = [Path output, Cause]"
| "error_detail (FailedToCreateRequest url err) = [Url url, Cause]"
| "error_detail (UnsuccessfulStatusCode url code) = [Url url, Status code]"
| "error_detail (UnsuccessfulWriting output err) = [Path output, Cause]"

text \<open>The stage of the download an error message names.\<close>

datatype stage = SizeResolution | FileCreation | RequestCreation | Transport | StatusCheck | Writing

fun error_stage :: "error \<Rightarrow> stage" where
  "error_stage (FailedToMakeRequest url err) = Transport"
| "error_stage FailedToDetermineSize = SizeResolution"
| "error_stage (FailedToDetermineSizeParse err) = SizeResolution"
| "error_stage (FailedToCreateFile output err) = FileCreation"
| "error_stage (FailedToCreateRequest url err) = RequestCreation"
| "error_stage (UnsuccessfulStatusCode url code) = StatusCheck"
| "error_stage (UnsuccessfulWriting output err) = Writing"

subsection \<open>\<^verbatim>\<open>strconv.ParseInt(s, 10, 64)\<close>\<close>

text \<open>
  The standard library's parser, at the base and bit size the program calls it with.
  \<^verbatim>\<open>ParseUint\<close> rejects the empty string, then reads byte by byte: a byte that is not a
  decimal digit is a syntax error (the underscore is a separator only for base 0, a
  letter is a digit of value at least 10); \<^verbatim>\<open>n >= cutoff\<close>, with
  \<^verbatim>\<open>cutoff = maxUint64/10 + 1\<close>, says that \<^verbatim>\<open>n * 10\<close> overflows, and \<^verbatim>\<open>n1 < n\<close> after
  the addition of the digit says that the sum wrapped around; both are range errors,
  returned at once with the value \<^verbatim>\<open>maxVal = 1<<64 - 1\<close>.
\<close>

definition cutoff :: "64 word" where
  "cutoff = 18446744073709551615 div 10 + 1"

definition maxVal :: "64 word" where
  "maxVal = 18446744073709551615"

fun ParseUint_loop :: "64 word \<Rightarrow> string \<Rightarrow> num_err + 64 word" where
  "ParseUint_loop n [] = Inr n"
| "ParseUint_loop n (c # s) =
     (if 48 \<le> (of_char c :: nat) \<and> (of_char c :: nat) \<le> 57 then
        (let d = (of_nat (of_char c - 48) :: 64 word) in
         if n \<ge> cutoff then Inl ErrRange
         else
           (let n' = n * 10; n1 = n' + d in
            if n1 < n' \<or> n1 > maxVal then Inl ErrRange
            else ParseUint_loop n1 s))
      else Inl ErrSyntax)"

definition ParseUint :: "string \<Rightarrow> num_err + 64 word" where
  "ParseUint s = (if s = [] then Inl ErrSyntax else ParseUint_loop 0 s)"

text \<open>
  \<^verbatim>\<open>ParseInt\<close> picks off one leading sign, parses the rest unsigned, passes a syntax
  error on, and checks the magnitude against \<^verbatim>\<open>1 << 63\<close>: at least that much is out of
  range for a non-negative number, more than that for a negative one.  On a range error
  of \<^verbatim>\<open>ParseUint\<close> the magnitude is \<^verbatim>\<open>maxVal\<close>, so one of the two checks fires.  The
  result is the \<^verbatim>\<open>int64\<close> of the magnitude, negated under a minus sign.
\<close>

definition ParseInt :: "string \<Rightarrow> num_err + 64 word" where
  "ParseInt s =
     (if s = [] then Inl ErrSyntax
      else
        (let neg = (hd s = CHR ''-'');
             s' = (if hd s = CHR ''+'' \<or> hd s = CHR ''-'' then tl s else s)
         in case ParseUint s' of
              Inl ErrSyntax \<Rightarrow> Inl ErrSyntax
            | r \<Rightarrow>
                (let un = (case r of Inr v \<Rightarrow> v | Inl e \<Rightarrow> maxVal)
                 in if \<not> neg \<and> un \<ge> 2 ^ 63 then Inl ErrRange
                    else if neg \<and> un > 2 ^ 63 then Inl ErrRange
                    else Inr (if neg then - un else un))))"

subsection \<open>\<^verbatim>\<open>fmt.Sprintf("%d", n)\<close> of an unsigned integer\<close>

function decimal :: "nat \<Rightarrow> string" where
  "decimal n = (if n < 10 then [char_of (48 + n)] else decimal (n div 10) @ [char_of (48 + n mod 10)])"
  by pat_completeness auto
termination
  by (relation "measure (\<lambda>n. n)") auto

declare decimal.simps [simp del]

subsection \<open>The Size Resolver: \<^verbatim>\<open>GetFileSize\<close>\<close>

text \<open>
  The outcome of \<^verbatim>\<open>http.Head(url)\<close>: an error of the transport, or a response, of which
  the function reads the header only.  \<^verbatim>\<open>net/http\<close> keeps, under each key a response
  has, the values received for it, at least one: a key is absent (the lookup is
  \<^verbatim>\<open>nil\<close>) or has a first value and the further ones.
\<close>

datatype head_result =
    HeadError string
  | HeadResponse "string \<rightharpoonup> string \<times> string list"

text \<open>
  The network is a parameter: \<open>Head k url\<close> is the outcome of the call
  \<^verbatim>\<open>http.Head(url)\<close> made after \<open>k\<close> earlier calls.  (One call may send several requests
  by itself, since the client follows redirects.)  The function makes the first call
  only, and returns Go's pair of the size and the error (\<open>None\<close> is \<^verbatim>\<open>nil\<close>).
  \<^verbatim>\<open>uint64(size)\<close> of the parsed \<^verbatim>\<open>int64\<close> keeps the 64 bits.
\<close>

definition GetFileSize :: "(nat \<Rightarrow> string \<Rightarrow> head_result) \<Rightarrow> string \<Rightarrow> 64 word \<times> error option" where
  "GetFileSize Head url =
     (case Head 0 url of
        HeadError err \<Rightarrow> (0, Some (FailedToMakeRequest url err))
      | HeadResponse header \<Rightarrow>
          (case header ''Content-Length'' of
             None \<Rightarrow> (0, Some FailedToDetermineSize)
           | Some (contentSize0, others) \<Rightarrow>
               (case ParseInt contentSize0 of
                  Inl err \<Rightarrow> (0, Some (FailedToDetermineSizeParse err))
                | Inr sz \<Rightarrow> (sz, None))))"

text \<open>
  A header value as the claim about the resolver describes it, in the spec's words: the
  value is numeric when it is an optional sign followed by decimal digits, at least one.
\<close>

definition is_digit :: "char \<Rightarrow> bool" where
  "is_digit c \<longleftrightarrow> 48 \<le> (of_char c :: nat) \<and> (of_char c :: nat) \<le> 57"

definition unsigned_part :: "string \<Rightarrow> string" where
  "unsigned_part s = (if s \<noteq> [] \<and> (hd s = CHR ''+'' \<or> hd s = CHR ''-'') then tl s else s)"

definition numeric :: "string \<Rightarrow> bool" where
  "numeric s \<longleftrightarrow> unsigned_part s \<noteq> [] \<and> list_all is_digit (unsigned_part s)"

fun digits_value :: "nat \<Rightarrow> string \<Rightarrow> nat" where
  "digits_value n [] = n"
| "digits_value n (c # s) = digits_value (n * 10 + (of_char c - 48)) s"

definition numeric_value :: "string \<Rightarrow> int" where
  "numeric_value s =
     (if s \<noteq> [] \<and> hd s = CHR ''-'' then - int (digits_value 0 (unsigned_part s))
      else int (digits_value 0 (unsigned_part s)))"

subsection \<open>The Chunk Planner: \<^verbatim>\<open>GetDownloadChunks\<close>\<close>

text \<open>
  The loop \<^verbatim>\<open>for i = 0; i < threads; i++\<close> over the slice \<^verbatim>\<open>results\<close> of \<^verbatim>\<open>threads\<close>
  zero chunks.  All arithmetic is that of \<^verbatim>\<open>uint64\<close>.  The index \<^verbatim>\<open>i\<close> is below
  \<^verbatim>\<open>threads\<close>, the length of the slice, at every assignment \<^verbatim>\<open>results[i] = ...\<close>.
\<close>

function fill_chunks ::
  "64 word \<Rightarrow> 64 word \<Rightarrow> 64 word \<Rightarrow> 64 word \<Rightarrow> DownloadChunk list \<Rightarrow> DownloadChunk list" where
  "fill_chunks sz threads chunkSize i results =
     (if i < threads then
        fill_chunks sz threads chunkSize (i + 1)
          (results[unat i :=
             (if i = threads - 1
              then \<lparr>Start = i * chunkSize, End = (i * chunkSize) + (sz - (i * chunkSize))\<rparr>
              else \<lparr>Start = i * chunkSize, End = (i * chunkSize) + chunkSize\<rparr>)])
      else results)"
  by pat_completeness auto
termination
proof (relation "measure (\<lambda>(sz, threads, chunkSize, i, results). unat threads - unat i)")
  show "wf (measure (\<lambda>(sz, threads, chunkSize, i, results). unat threads - unat i))"
    by simp
next
  fix sz threads chunkSize i :: "64 word" and results :: "DownloadChunk list"
  assume lt: "i < threads"
  have "unat (i + 1) = unat i + 1"
  proof -
    have "unat i + 1 \<le> unat threads"
      using lt by (simp add: word_less_nat_alt)
    moreover have "unat threads < 2 ^ 64"
      using unsigned_less [of threads] by simp
    ultimately have "unat i + unat (1 :: 64 word) < 2 ^ LENGTH(64)"
      by simp
    then show ?thesis
      by (simp add: unat_add_lem [THEN iffD1])
  qed
  with lt show "((sz, threads, chunkSize, i + 1,
                  results[unat i := (if i = threads - 1
              then \<lparr>Start = i * chunkSize, End = (i * chunkSize) + (sz - (i * chunkSize))\<rparr>
              else \<lparr>Start = i * chunkSize, End = (i * chunkSize) + chunkSize\<rparr>)]),
                 (sz, threads, chunkSize, i, results))
        \<in> measure (\<lambda>(sz, threads, chunkSize, i, results). unat threads - unat i)"
    by (simp add: word_less_nat_alt)
qed

declare fill_chunks.simps [simp del]

text \<open>
  \<^verbatim>\<open>results := make([]DownloadChunk, threads)\<close>.  The length is converted to \<^verbatim>\<open>int\<close>,
  and the runtime's \<^verbatim>\<open>makeslice\<close> panics when the length is negative, when the size
  in bytes, the length times the 16 bytes of a \<^verbatim>\<open>DownloadChunk\<close>, overflows
  \<^verbatim>\<open>uintptr\<close>, or when it exceeds the runtime's \<^verbatim>\<open>maxAlloc\<close>.  That constant is
  \<^verbatim>\<open>1 << 48\<close> on the 64-bit platforms with 48 address bits (linux/amd64 among them),
  the value taken here.
\<close>

definition maxAlloc :: nat where
  "maxAlloc = 281474976710656"

definition makeslice_panics :: "64 word \<Rightarrow> bool" where
  "makeslice_panics len \<longleftrightarrow>
     sint len < 0 \<or> 18446744073709551616 \<le> 16 * unat len \<or> maxAlloc < 16 * unat len"

text \<open>
  \<^verbatim>\<open>chunkSize := size / threads\<close> panics when \<^verbatim>\<open>threads\<close> is 0, and the \<^verbatim>\<open>make\<close> of
  the next line panics when \<^verbatim>\<open>threads\<close> is too large; the function has no guard of its
  own against either.
\<close>

definition GetDownloadChunks :: "64 word \<Rightarrow> 64 word \<Rightarrow> panic + DownloadChunk list" where
  "GetDownloadChunks sz threads =
     (if threads = 0 then Inl DivideByZero
      else if makeslice_panics threads then Inl MakeSliceLenOutOfRange
      else Inr (fill_chunks sz threads (sz div threads) 0
                  (replicate (unat threads) \<lparr>Start = 0, End = 0\<rparr>)))"

text \<open>
  The caller, \<^verbatim>\<open>main\<close>, reads the thread count from its second argument with
  \<^verbatim>\<open>strconv.ParseInt(os.Args[2], 10, 64)\<close>, and reports an invalid thread number (here
  \<open>None\<close>) when the parse fails or when \<^verbatim>\<open>t <= 0\<close>; otherwise it passes \<^verbatim>\<open>uint64(t)\<close> on
  to the planner.  It has no upper bound on the count.
\<close>

definition main_threads :: "string \<Rightarrow> 64 word option" where
  "main_threads arg =
     (case ParseInt arg of
        Inl err \<Rightarrow> None
      | Inr t \<Rightarrow> if sint t \<le> 0 then None else Some t)"

text \<open>The bytes a chunk spans when its \<open>End\<close> is read as exclusive, and a partition.\<close>

definition span :: "DownloadChunk \<Rightarrow> nat set" where
  "span c = {unat (Start c) ..< unat (End c)}"

definition partitions :: "DownloadChunk list \<Rightarrow> 64 word \<Rightarrow> bool" where
  "partitions plan sz \<longleftrightarrow>
     plan \<noteq> [] \<and>
     Start (hd plan) = 0 \<and>
     End (last plan) = sz \<and>
     (\<forall>k \<in> {..< length plan - 1}. End (plan ! k) = Start (plan ! Suc k)) \<and>
     (\<forall>c \<in> set plan. Start c \<le> End c) \<and>
     (\<forall>k \<in> {..< length plan}. \<forall>j \<in> {..< k}. span (plan ! j) \<inter> span (plan ! k) = {}) \<and>
     (\<Union>c \<in> set plan. span c) = {0 ..< unat sz}"

text \<open>The chunk the loop stores at index \<open>i\<close>, and the plan for a non-zero thread count.\<close>

definition chunk_of :: "64 word \<Rightarrow> 64 word \<Rightarrow> 64 word \<Rightarrow> 64 word \<Rightarrow> DownloadChunk" where
  "chunk_of sz threads chunkSize i =
     (if i = threads - 1
      then \<lparr>Start = i * chunkSize, End = (i * chunkSize) + (sz - (i * chunkSize))\<rparr>
      else \<lparr>Start = i * chunkSize, End = (i * chunkSize) + chunkSize\<rparr>)"

definition plan_of :: "64 word \<Rightarrow> 64 word \<Rightarrow> DownloadChunk list" where
  "plan_of sz threads =
     fill_chunks sz threads (sz div threads) 0 (replicate (unat threads) \<lparr>Start = 0, End = 0\<rparr>)"

subsection \<open>The Fetch Coordinator: \<^verbatim>\<open>DownloadChunks\<close>\<close>

text \<open>The request a task sends, and the part of the response it reads.\<close>

record request =
  Method :: string
  URL :: string
  Header :: "(string \<times> string) list"

record response =
  StatusCode :: int
  Body :: "8 word list"

text \<open>
  The world outside the program:
  \<^item> \<open>os_Create output\<close>: the error of \<^verbatim>\<open>os.Create(output)\<close>, \<open>None\<close> when the file is
    created;
  \<^item> \<open>http_NewRequest url\<close>: the error of \<^verbatim>\<open>http.NewRequest("GET", url, nil)\<close>;
  \<^item> \<open>http_Do k req\<close>: the outcome of \<^verbatim>\<open>http.DefaultClient.Do(req)\<close> in task \<open>k\<close>;
  \<^item> \<open>file_Seek k off\<close>: the error of \<^verbatim>\<open>f.Seek(off, 0)\<close> in task \<open>k\<close>;
  \<^item> \<open>io_Copy k\<close>: the failure of \<^verbatim>\<open>io.Copy(f, resp.Body)\<close> in task \<open>k\<close>, with the number
    of bytes of the body written before it.
\<close>

record world =
  os_Create :: "string \<Rightarrow> string option"
  http_NewRequest :: "string \<Rightarrow> string option"
  http_Do :: "nat \<Rightarrow> request \<Rightarrow> string + response"
  file_Seek :: "nat \<Rightarrow> int \<Rightarrow> string option"
  io_Copy :: "nat \<Rightarrow> (nat \<times> string) option"

text \<open>
  The output file is its bytes.  Writing at an offset past the end fills the hole with
  zero bytes; writing no byte changes nothing.
\<close>

definition write_at :: "nat \<Rightarrow> 8 word list \<Rightarrow> 8 word list \<Rightarrow> 8 word list" where
  "write_at off bs f =
     (if bs = [] then f
      else take off (f @ replicate (off - length f) 0) @ bs @ drop (off + length bs) f)"

text \<open>\<^verbatim>\<open>f.Seek(int64(start), 0)\<close>: a negative offset is an invalid argument.\<close>

definition Seek :: "world \<Rightarrow> nat \<Rightarrow> int \<Rightarrow> string option" where
  "Seek w k off = (if off < 0 then Some ''invalid argument'' else file_Seek w k off)"

text \<open>\<^verbatim>\<open>chunkHeader := fmt.Sprintf("bytes=%d-%d", start, end)\<close>\<close>

definition chunkHeader :: "64 word \<Rightarrow> 64 word \<Rightarrow> string" where
  "chunkHeader start end' = ''bytes='' @ decimal (unat start) @ ''-'' @ decimal (unat end')"

text \<open>
  \<^verbatim>\<open>req, err := http.NewRequest("GET", url, nil)\<close> followed by
  \<^verbatim>\<open>req.Header.Set("Range", chunkHeader)\<close>.
\<close>

definition task_request :: "string \<Rightarrow> 64 word \<Rightarrow> 64 word \<Rightarrow> request" where
  "task_request url start end' =
     \<lparr>Method = ''GET'', URL = url, Header = [(''Range'', chunkHeader start end')]\<rparr>"

text \<open>
  The body of the goroutine started for chunk \<open>k\<close> with \<^verbatim>\<open>(chunks[k].Start,
  chunks[k].End)\<close>: the value it sends on \<^verbatim>\<open>errChan\<close> (\<open>None\<close> is \<^verbatim>\<open>nil\<close>) and the file
  it leaves.  Every path sends exactly one value.  The seek and the copy run under the
  mutex, so they are one step on the file.
\<close>

definition chunk_task ::
  "world \<Rightarrow> nat \<Rightarrow> string \<Rightarrow> string \<Rightarrow> 64 word \<Rightarrow> 64 word \<Rightarrow> 8 word list
     \<Rightarrow> error option \<times> 8 word list" where
  "chunk_task w k url output start end' f =
     (case http_NewRequest w url of
        Some err \<Rightarrow> (Some (FailedToCreateRequest url err), f)
      | None \<Rightarrow>
          (case http_Do w k (task_request url start end') of
             Inl err \<Rightarrow> (Some (FailedToMakeRequest url err), f)
           | Inr resp \<Rightarrow>
               if StatusCode resp \<noteq> 206
               then (Some (UnsuccessfulStatusCode url (StatusCode resp)), f)
               else
                 (case Seek w k (sint start) of
                    Some err \<Rightarrow> (Some (UnsuccessfulWriting output err), f)
                  | None \<Rightarrow>
                      (case io_Copy w k of
                         Some (n, err) \<Rightarrow>
                           (Some (UnsuccessfulWriting output err),
                            write_at (nat (sint start)) (take n (Body resp)) f)
                       | None \<Rightarrow> (None, write_at (nat (sint start)) (Body resp) f)))))"

text \<open>What task \<open>k\<close> reports; it does not depend on the bytes of the file.\<close>

definition task_report :: "world \<Rightarrow> nat \<Rightarrow> string \<Rightarrow> string \<Rightarrow> DownloadChunk \<Rightarrow> error option" where
  "task_report w k url output c = fst (chunk_task w k url output (Start c) (End c) [])"

text \<open>
  The receive loop \<^verbatim>\<open>for i := 0; i < len(chunks); i++ { err := <-errChan; if err != nil
  { return err } }\<close> and the final \<^verbatim>\<open>return nil\<close>.  The channel is unbuffered: \<open>chan\<close>
  lists the tasks in the order in which their sends are received, each with the value it
  sends.  A receive with no sender left never returns (\<open>None\<close>).  The loop returns the
  error of the call and the sends it has not received: those tasks stay blocked in
  \<^verbatim>\<open>errChan<-\<close>.
\<close>

function recv_loop ::
  "nat \<Rightarrow> nat \<Rightarrow> (nat \<times> error option) list \<Rightarrow> (error option \<times> (nat \<times> error option) list) option" where
  "recv_loop i n chan =
     (if i < n then
        (case chan of
           [] \<Rightarrow> None
         | (k, err) # rest \<Rightarrow>
             if err \<noteq> None then Some (err, rest) else recv_loop (i + 1) n rest)
      else Some (None, chan))"
  by pat_completeness auto
termination
  by (relation "measure (\<lambda>(i, n, chan). n - i)") auto

declare recv_loop.simps [simp del]

text \<open>
  The result of a call: the error returned, the number of goroutines started, and the
  tasks whose send was never received.
\<close>

record download =
  returned :: "error option"
  launched :: nat
  blocked :: "nat list"

text \<open>
  The scheduler is the parameter \<open>schedule\<close>: the indices of the tasks in the order in
  which the coordinator receives their reports (the completion order).  It is valid when
  it lists every task exactly once.
\<close>

definition valid_schedule :: "nat \<Rightarrow> nat list \<Rightarrow> bool" where
  "valid_schedule n schedule \<longleftrightarrow> sort schedule = [0 ..< n]"

definition DownloadChunks ::
  "world \<Rightarrow> nat list \<Rightarrow> string \<Rightarrow> DownloadChunk list \<Rightarrow> string \<Rightarrow> download option" where
  "DownloadChunks w schedule url chunks output =
     (case os_Create w output of
        Some err \<Rightarrow>
          Some \<lparr>returned = Some (FailedToCreateFile output err), launched = 0, blocked = []\<rparr>
      | None \<Rightarrow>
          (case recv_loop 0 (length chunks)
                  (map (\<lambda>k. (k, task_report w k url output (chunks ! k))) schedule) of
             None \<Rightarrow> None
           | Some (err, rest) \<Rightarrow>
               Some \<lparr>returned = err, launched = length chunks, blocked = map fst rest\<rparr>))"

text \<open>The first failure in completion order, if any task fails.\<close>

definition first_failure ::
  "world \<Rightarrow> nat list \<Rightarrow> string \<Rightarrow> DownloadChunk list \<Rightarrow> string \<Rightarrow> error option" where
  "first_failure w schedule url chunks output =
     (case filter (\<lambda>r. r \<noteq> None) (map (\<lambda>k. task_report w k url output (chunks ! k)) schedule) of
        [] \<Rightarrow> None
      | r # rs \<Rightarrow> r)"

subsection \<open>Worlds for concrete runs\<close>

text \<open>
  A network on which every call of \<^verbatim>\<open>http.Head\<close> gets a response with the one header
  \<^verbatim>\<open>Content-Length: v\<close>.
\<close>

definition content_length_reply :: "string \<Rightarrow> nat \<Rightarrow> string \<Rightarrow> head_result" where
  "content_length_reply v k url = HeadResponse [''Content-Length'' \<mapsto> (v, [])]"

text \<open>
  A world in which everything succeeds: the file is created, every request is answered
  with 206 and a two-byte body, every seek to a non-negative offset and every copy
  succeeds.
\<close>

definition world_ok :: world where
  "world_ok =
     \<lparr>os_Create = (\<lambda>output. None),
      http_NewRequest = (\<lambda>url. None),
      http_Do = (\<lambda>k req. Inr \<lparr>StatusCode = 206, Body = [4, 5]\<rparr>),
      file_Seek = (\<lambda>k off. None),
      io_Copy = (\<lambda>k. None)\<rparr>"

text \<open>
  The same, with a server that ignores the range of task \<open>bad\<close> and answers it with 200
  and a three-byte body.
\<close>

definition world_ignoring_range :: "nat \<Rightarrow> world" where
  "world_ignoring_range bad =
     world_ok\<lparr>http_Do := (\<lambda>k req. if k = bad then Inr \<lparr>StatusCode = 200, Body = [1, 2, 3]\<rparr>
                                    else Inr \<lparr>StatusCode = 206, Body = [4, 5]\<rparr>)\<rparr>"

text \<open>The same as \<open>world_ok\<close>, with a disk on which every seek fails.\<close>

definition world_seek_fails :: world where
  "world_seek_fails = world_ok\<lparr>file_Seek := (\<lambda>k off. Some ''input/output error'')\<rparr>"

text \<open>The same as \<open>world_ok\<close>, with an output path that cannot be created.\<close>

definition world_no_file :: world where
  "world_no_file = world_ok\<lparr>os_Create := (\<lambda>output. Some ''permission denied'')\<rparr>"

text \<open>
  A world that serves a request only when its \<^verbatim>\<open>Range\<close> header is exactly \<open>h\<close>, and
  fails every other one in the transport.
\<close>

definition serving_only :: "string \<Rightarrow> world \<Rightarrow> world" where
  "serving_only h w =
     w\<lparr>http_Do := (\<lambda>k req. if map_of (Header req) ''Range'' = Some h then http_Do w k req
                             else Inl ''range not served'')\<rparr>"

text \<open>
  A world whose transport fails every request and gives, as the cause, the value of the
  \<^verbatim>\<open>Range\<close> header of the request it was handed.
\<close>

definition echoing_range :: "world \<Rightarrow> world" where
  "echoing_range w =
     w\<lparr>http_Do := (\<lambda>k req. Inl (case map_of (Header req) ''Range'' of
                                     None \<Rightarrow> ''no Range header''
                                   | Some h \<Rightarrow> h))\<rparr>"

text \<open>A world in which task \<open>k\<close> is answered with the status \<open>500 + k\<close>.\<close>

definition world_all_failing :: world where
  "world_all_failing =
     world_ok\<lparr>http_Do := (\<lambda>k req. Inr \<lparr>StatusCode = 500 + int k, Body = []\<rparr>)\<rparr>"

text \<open>
  A network on which every call fails in the transport, one that replies without any
  header, and one on which the first call fails and every later call would get
  \<^verbatim>\<open>Content-Length: 1000\<close>.
\<close>

definition transport_failing :: "nat \<Rightarrow> string \<Rightarrow> head_result" where
  "transport_failing k url = HeadError ''no such host''"

definition no_header_reply :: "nat \<Rightarrow> string \<Rightarrow> head_result" where
  "no_header_reply k url = HeadResponse Map.empty"

definition failing_once :: "nat \<Rightarrow> string \<Rightarrow> head_result" where
  "failing_once k url =
     (if k = 0 then HeadError ''connection reset''
      else HeadResponse [''Content-Length'' \<mapsto> (''1000'', [])])"

section \<open>The Chunk Planner\<close>

subsection \<open>What the loop computes\<close>

lemma unat_succ_below:
  fixes i threads :: "64 word"
  assumes "i < threads"
  shows "unat (i + 1) = Suc (unat i)"
proof -
  have "unat i + 1 \<le> unat threads" using assms by (simp add: word_less_nat_alt)
  moreover have "unat threads < 2 ^ 64" using unsigned_less [of threads] by simp
  ultimately have "unat i + unat (1 :: 64 word) < 2 ^ LENGTH(64)" by simp
  then show ?thesis by (simp add: unat_add_lem [THEN iffD1])
qed

lemma fill_chunks_length: "length (fill_chunks sz threads cs i results) = length results"
  by (induction sz threads cs i results rule: fill_chunks.induct)
     (subst fill_chunks.simps, simp)

lemma fill_chunks_nth:
  "length results = unat threads \<Longrightarrow> k < unat threads \<Longrightarrow>
   fill_chunks sz threads cs i results ! k =
     (if unat i \<le> k then chunk_of sz threads cs (of_nat k) else results ! k)"
proof (induction sz threads cs i results rule: fill_chunks.induct)
  case (1 sz threads cs i results)
  show ?case
  proof (cases "i < threads")
    case True
    note suc = unat_succ_below [OF True]
    let ?c = "chunk_of sz threads cs i"
    have step: "fill_chunks sz threads cs i results =
                fill_chunks sz threads cs (i + 1) (results[unat i := ?c])"
      using True by (subst fill_chunks.simps) (simp add: chunk_of_def)
    have ih: "fill_chunks sz threads cs (i + 1) (results[unat i := ?c]) ! k =
          (if unat (i + 1) \<le> k then chunk_of sz threads cs (of_nat k)
           else results[unat i := ?c] ! k)"
      using "1.IH" [OF True] "1.prems" by (simp add: chunk_of_def)
    show ?thesis
    proof (cases "k = unat i")
      case True
      then show ?thesis using step ih suc "1.prems" by simp
    next
      case False
      then show ?thesis using step ih suc by auto
    qed
  next
    case False
    then have "unat threads \<le> unat i" by (simp add: word_less_nat_alt)
    with False "1.prems" show ?thesis by (subst fill_chunks.simps) simp
  qed
qed


lemma plan_of_length: "length (plan_of sz threads) = unat threads"
  by (simp add: plan_of_def fill_chunks_length)

lemma plan_of_nth:
  "k < unat threads \<Longrightarrow>
   plan_of sz threads ! k = chunk_of sz threads (sz div threads) (of_nat k)"
  by (simp add: plan_of_def fill_chunks_nth)

lemma unat_of_nat_below:
  fixes threads :: "64 word"
  assumes "k \<le> unat threads"
  shows "unat (of_nat k :: 64 word) = k"
proof -
  have "unat threads < 2 ^ 64" using unsigned_less [of threads] by simp
  with assms have "k < 2 ^ LENGTH(64)" by simp
  then show ?thesis by (simp add: unat_of_nat take_bit_nat_eq_self)
qed

lemma unat_index_times:
  fixes sz threads :: "64 word"
  assumes "k \<le> unat threads"
  shows "unat (of_nat k * (sz div threads)) = k * (unat sz div unat threads)"
proof -
  let ?q = "unat sz div unat threads"
  have "k * ?q \<le> unat threads * ?q" using assms by simp
  also have "\<dots> \<le> unat sz" by simp
  also have "\<dots> < 2 ^ 64" using unsigned_less [of sz] by simp
  finally have "unat (of_nat k :: 64 word) * unat (sz div threads) < 2 ^ LENGTH(64)"
    using assms by (simp add: unat_of_nat_below unat_div)
  then have "unat (of_nat k * (sz div threads)) = unat (of_nat k :: 64 word) * unat (sz div threads)"
    by (simp add: unat_mult_lem [THEN iffD1])
  then show ?thesis using assms by (simp add: unat_of_nat_below unat_div)
qed

lemma last_index_iff:
  fixes threads :: "64 word"
  assumes "k < unat threads"
  shows "(of_nat k :: 64 word) = threads - 1 \<longleftrightarrow> Suc k = unat threads"
proof -
  have "(of_nat k :: 64 word) = threads - 1 \<longleftrightarrow> (of_nat (Suc k) :: 64 word) = threads"
    by auto
  also have "\<dots> \<longleftrightarrow> unat (of_nat (Suc k) :: 64 word) = unat threads"
    by (simp add: word_unat_eq_iff)
  also have "\<dots> \<longleftrightarrow> Suc k = unat threads"
    using assms unat_of_nat_below [of "Suc k" threads] by simp
  finally show ?thesis .
qed

lemma chunk_of_Start:
  "k < unat threads \<Longrightarrow>
   unat (Start (chunk_of sz threads (sz div threads) (of_nat k))) = k * (unat sz div unat threads)"
  using unat_index_times [of k threads sz] by (auto simp: chunk_of_def)

lemma chunk_of_End:
  assumes "k < unat threads"
  shows "unat (End (chunk_of sz threads (sz div threads) (of_nat k))) =
           (if Suc k = unat threads then unat sz else Suc k * (unat sz div unat threads))"
proof (cases "Suc k = unat threads")
  case True
  then have "(of_nat k :: 64 word) = threads - 1" using last_index_iff [OF assms] by simp
  then show ?thesis using True by (simp add: chunk_of_def)
next
  case False
  then have ne: "(of_nat k :: 64 word) \<noteq> threads - 1" using last_index_iff [OF assms] by simp
  have "of_nat k * (sz div threads) + sz div threads = of_nat (Suc k) * (sz div threads)"
    by (simp add: algebra_simps)
  moreover have "Suc k \<le> unat threads" using assms by simp
  ultimately show ?thesis
    using ne False unat_index_times [of "Suc k" threads sz] by (simp add: chunk_of_def)
qed

lemma plan_of_Start:
  "k < unat threads \<Longrightarrow> unat (Start (plan_of sz threads ! k)) = k * (unat sz div unat threads)"
  by (simp add: plan_of_nth chunk_of_Start)

lemma plan_of_End:
  "k < unat threads \<Longrightarrow> unat (End (plan_of sz threads ! k)) =
      (if Suc k = unat threads then unat sz else Suc k * (unat sz div unat threads))"
  by (simp add: plan_of_nth chunk_of_End)

lemma plan_of_Start_le_sz:
  assumes "k < unat threads"
  shows "unat (Start (plan_of sz threads ! k)) \<le> unat sz"
proof -
  have "k * (unat sz div unat threads) \<le> unat threads * (unat sz div unat threads)"
    using assms by simp
  also have "\<dots> \<le> unat sz" by simp
  finally show ?thesis using assms by (simp add: plan_of_Start)
qed

lemma plan_of_End_le_sz:
  assumes "k < unat threads"
  shows "unat (End (plan_of sz threads ! k)) \<le> unat sz"
proof (cases "Suc k = unat threads")
  case True
  then show ?thesis using assms by (simp add: plan_of_End)
next
  case False
  have "Suc k * (unat sz div unat threads) \<le> unat threads * (unat sz div unat threads)"
    using assms by (intro mult_le_mono1) simp
  also have "\<dots> \<le> unat sz" by simp
  finally show ?thesis using assms False by (simp add: plan_of_End)
qed

lemma plan_of_Start_le_End:
  assumes "k < unat threads"
  shows "unat (Start (plan_of sz threads ! k)) \<le> unat (End (plan_of sz threads ! k))"
proof (cases "Suc k = unat threads")
  case True
  then show ?thesis using assms plan_of_Start_le_sz [OF assms, of sz] by (simp add: plan_of_End)
next
  case False
  then show ?thesis using assms by (simp add: plan_of_End plan_of_Start)
qed

lemma plan_of_contiguous:
  assumes "Suc k < unat threads"
  shows "End (plan_of sz threads ! k) = Start (plan_of sz threads ! Suc k)"
proof -
  have "unat (End (plan_of sz threads ! k)) = unat (Start (plan_of sz threads ! Suc k))"
    using assms by (simp add: plan_of_End plan_of_Start)
  then show ?thesis by (simp add: word_unat_eq_iff)
qed

lemma plan_of_disjoint:
  assumes "j < k" "k < unat threads"
  shows "span (plan_of sz threads ! j) \<inter> span (plan_of sz threads ! k) = {}"
proof -
  have "Suc j * (unat sz div unat threads) \<le> k * (unat sz div unat threads)"
    using assms by (intro mult_le_mono1) simp
  then have "unat (End (plan_of sz threads ! j)) \<le> unat (Start (plan_of sz threads ! k))"
    using assms by (simp add: plan_of_End plan_of_Start)
  then show ?thesis by (auto simp: span_def)
qed

lemma plan_of_covers:
  assumes "threads \<noteq> 0"
  shows "(\<Union>c \<in> set (plan_of sz threads). span c) = {0 ..< unat sz}"
proof (intro equalityI subsetI)
  fix x assume "x \<in> (\<Union>c \<in> set (plan_of sz threads). span c)"
  then obtain k where k: "k < unat threads" and x: "x \<in> span (plan_of sz threads ! k)"
    by (auto simp: in_set_conv_nth plan_of_length)
  from x have "x < unat (End (plan_of sz threads ! k))" by (simp add: span_def)
  with plan_of_End_le_sz [OF k, of sz] show "x \<in> {0 ..< unat sz}" by simp
next
  let ?n = "unat threads" and ?q = "unat sz div unat threads"
  have npos: "0 < ?n" using assms by (simp add: unat_gt_0)
  fix x assume "x \<in> {0 ..< unat sz}"
  then have xlt: "x < unat sz" by simp
  have "\<exists>k < ?n. x \<in> span (plan_of sz threads ! k)"
  proof (cases "x < (?n - 1) * ?q")
    case True
    then have qpos: "0 < ?q" by (cases "?q = 0") simp_all
    let ?k = "x div ?q"
    have klt: "?k < ?n - 1" using True qpos by (simp add: less_mult_imp_div_less)
    then have k1: "?k < ?n" and k2: "Suc ?k \<noteq> ?n" by simp_all
    have lo: "?k * ?q \<le> x" by simp
    have hi: "x < Suc ?k * ?q" using qpos by (simp add: dividend_less_div_times)
    show ?thesis
      using k1 k2 lo hi by (intro exI [of _ ?k]) (simp add: span_def plan_of_Start plan_of_End)
  next
    case False
    then have "(?n - 1) * ?q \<le> x" by simp
    with xlt npos show ?thesis
      by (intro exI [of _ "?n - 1"]) (simp add: span_def plan_of_Start plan_of_End)
  qed
  then obtain k where k: "k < ?n" and x: "x \<in> span (plan_of sz threads ! k)"
    by blast
  from k have "plan_of sz threads ! k \<in> set (plan_of sz threads)"
    by (simp add: plan_of_length)
  with x show "x \<in> (\<Union>c \<in> set (plan_of sz threads). span c)"
    by blast
qed

lemma plan_of_partitions:
  assumes "threads \<noteq> 0"
  shows "partitions (plan_of sz threads) sz"
proof -
  let ?p = "plan_of sz threads" and ?n = "unat threads"
  have npos: "0 < ?n" using assms by (simp add: unat_gt_0)
  have len: "length ?p = ?n" by (rule plan_of_length)
  have ne: "?p \<noteq> []" using npos len by auto
  have "unat (Start (?p ! 0)) = 0" using npos by (simp add: plan_of_Start)
  then have first: "Start (hd ?p) = 0" using ne by (simp add: hd_conv_nth unat_eq_0)
  have "unat (End (?p ! (?n - 1))) = unat sz" using npos by (simp add: plan_of_End)
  then have lst: "End (last ?p) = sz" using ne len by (simp add: last_conv_nth word_unat_eq_iff)
  have contig: "\<forall>k \<in> {..< length ?p - 1}. End (?p ! k) = Start (?p ! Suc k)"
    using len by (auto intro: plan_of_contiguous)
  have ord: "\<forall>c \<in> set ?p. Start c \<le> End c"
    using len by (auto simp: in_set_conv_nth word_le_nat_alt intro: plan_of_Start_le_End)
  have disj: "\<forall>k \<in> {..< length ?p}. \<forall>j \<in> {..< k}. span (?p ! j) \<inter> span (?p ! k) = {}"
    using len by (auto simp del: Int_iff intro!: plan_of_disjoint)
  show ?thesis
    unfolding partitions_def using ne first lst contig ord disj plan_of_covers [OF assms] by blast
qed


lemma GetDownloadChunks_plan_of:
  "threads \<noteq> 0 \<Longrightarrow> \<not> makeslice_panics threads \<Longrightarrow>
   GetDownloadChunks sz threads = Inr (plan_of sz threads)"
  by (simp add: GetDownloadChunks_def plan_of_def)

lemma GetDownloadChunks_makeslice:
  "threads \<noteq> 0 \<Longrightarrow> makeslice_panics threads \<Longrightarrow>
   GetDownloadChunks sz threads = Inl MakeSliceLenOutOfRange"
  by (simp add: GetDownloadChunks_def)

text \<open>With this \<^verbatim>\<open>maxAlloc\<close>, \<^verbatim>\<open>make\<close> accepts exactly the lengths up to \<^verbatim>\<open>1 << 44\<close>.\<close>

lemma makeslice_panics_iff:
  "makeslice_panics len \<longleftrightarrow> 17592186044416 < unat len"
proof -
  have "sint len < 0 \<Longrightarrow> 17592186044416 < unat len"
  proof -
    assume neg: "sint len < 0"
    have "uint len = 2 ^ 64 + sint len"
    proof -
      have lo: "- (2 ^ 63) \<le> sint len" using sint_ge [of len] by simp
      have "uint len = take_bit 64 (sint len)" by (simp add: uint_sint)
      also have "\<dots> = sint len mod 2 ^ 64" by (simp add: take_bit_eq_mod)
      also have "\<dots> = (sint len + 2 ^ 64) mod 2 ^ 64" by simp
      also have "\<dots> = sint len + 2 ^ 64" using lo neg by (intro mod_pos_pos_trivial) simp_all
      finally show ?thesis by simp
    qed
    moreover have "- (2 ^ 63) \<le> sint len" using sint_ge [of len] by simp
    ultimately have "9223372036854775808 \<le> uint len" by simp
    then have "9223372036854775808 \<le> int (unat len)" by simp
    then have "(9223372036854775808 :: nat) \<le> unat len" by linarith
    then show ?thesis by simp
  qed
  then show ?thesis
    unfolding makeslice_panics_def maxAlloc_def by auto
qed

lemma makeslice_accepts_small:
  "unat len \<le> 17592186044416 \<Longrightarrow> \<not> makeslice_panics len"
  by (simp add: makeslice_panics_iff)

lemma plan_of_zero_size:
  "plan_of 0 threads = replicate (unat threads) \<lparr>Start = 0, End = 0\<rparr>"
proof (rule nth_equalityI)
  show "length (plan_of 0 threads) = length (replicate (unat threads) \<lparr>Start = 0, End = 0\<rparr>)"
    by (simp add: plan_of_length)
next
  fix k assume "k < length (plan_of 0 threads)"
  then have k: "k < unat threads" by (simp add: plan_of_length)
  then show "plan_of 0 threads ! k = replicate (unat threads) \<lparr>Start = 0, End = 0\<rparr> ! k"
    by (simp add: plan_of_nth chunk_of_def)
qed

lemma main_threads_positive: "main_threads arg = Some t \<Longrightarrow> t \<noteq> 0"
  by (auto simp: main_threads_def split: sum.splits if_splits)

lemma plan_1000_3:
  "GetDownloadChunks 1000 3 =
     Inr [\<lparr>Start = 0, End = 333\<rparr>, \<lparr>Start = 333, End = 666\<rparr>, \<lparr>Start = 666, End = 1000\<rparr>]"
proof -
  have "plan_of 1000 3 =
     [\<lparr>Start = 0, End = 333\<rparr>, \<lparr>Start = 333, End = 666\<rparr>, \<lparr>Start = 666, End = 1000\<rparr>]"
    by code_simp
  then show ?thesis
    by (simp add: GetDownloadChunks_plan_of makeslice_accepts_small)
qed

lemma plan_max_int64:
  "GetDownloadChunks sz 9223372036854775807 = Inl MakeSliceLenOutOfRange"
  by (simp add: GetDownloadChunks_makeslice makeslice_panics_iff)

lemma main_threads_max_int64:
  "main_threads ''9223372036854775807'' = Some 9223372036854775807"
  by code_simp

subsection \<open>The claims about the planner\<close>

text \<open>
  C1, as the claim states it, fails: not every worker count of at least 1 has a plan.
  The count 9223372036854775807, which \<^verbatim>\<open>main\<close> accepts, makes
  \<^verbatim>\<open>make([]DownloadChunk, threads)\<close> panic, and no list of ranges is returned.
\<close>

theorem GetDownloadChunks_large_count_counterexample:
  "(1 :: 64 word) \<le> 9223372036854775807
   \<and> GetDownloadChunks 1000 9223372036854775807 = Inl MakeSliceLenOutOfRange
   \<and> main_threads ''9223372036854775807'' = Some 9223372036854775807"
  using plan_max_int64 [of 1000] main_threads_max_int64 by simp

text \<open>
  C1, amended.  For every total size and every worker count of at least 1 that \<^verbatim>\<open>make\<close>
  accepts (a count of at most \<^verbatim>\<open>1 << 44\<close> with the runtime's \<^verbatim>\<open>maxAlloc\<close> of
  \<^verbatim>\<open>1 << 48\<close>), \<^verbatim>\<open>GetDownloadChunks\<close> returns a plan that partitions
  \<open>[0, totalSize)\<close>: it is not empty, its first range starts at 0, the \<open>End\<close> of each
  range is the \<open>Start\<close> of the next, its last range ends at \<open>totalSize\<close>, no range ends
  before it starts, two ranges never share a byte, and the union of the ranges is exactly
  \<open>[0, totalSize)\<close>; no product or sum of the loop wraps around in \<^verbatim>\<open>uint64\<close>.  For a
  larger worker count the call panics in \<^verbatim>\<open>make\<close> and returns no plan.
\<close>

theorem GetDownloadChunks_partitions:
  "(1 \<le> threads \<and> \<not> makeslice_panics threads \<longrightarrow>
      (\<exists>plan. GetDownloadChunks sz threads = Inr plan \<and> partitions plan sz))
   \<and> (1 \<le> threads \<and> makeslice_panics threads \<longrightarrow>
      GetDownloadChunks sz threads = Inl MakeSliceLenOutOfRange)
   \<and> (makeslice_panics threads \<longleftrightarrow> 17592186044416 < unat threads)"
proof (intro conjI impI)
  assume h: "1 \<le> threads \<and> \<not> makeslice_panics threads"
  then have "threads \<noteq> 0" by auto
  with h show "\<exists>plan. GetDownloadChunks sz threads = Inr plan \<and> partitions plan sz"
    using plan_of_partitions [of threads sz] by (simp add: GetDownloadChunks_plan_of)
next
  assume h: "1 \<le> threads \<and> makeslice_panics threads"
  then have "threads \<noteq> 0" by auto
  with h show "GetDownloadChunks sz threads = Inl MakeSliceLenOutOfRange"
    by (simp add: GetDownloadChunks_makeslice)
next
  show "makeslice_panics threads \<longleftrightarrow> 17592186044416 < unat threads"
    by (rule makeslice_panics_iff)
qed

theorem GetDownloadChunks_partitions_witness:
  "(1 :: 64 word) \<le> 3 \<and> \<not> makeslice_panics 3
   \<and> GetDownloadChunks 1000 3 =
       Inr [\<lparr>Start = 0, End = 333\<rparr>, \<lparr>Start = 333, End = 666\<rparr>, \<lparr>Start = 666, End = 1000\<rparr>]
   \<and> partitions
       [\<lparr>Start = 0, End = 333\<rparr>, \<lparr>Start = 333, End = 666\<rparr>, \<lparr>Start = 666, End = 1000\<rparr>] 1000
   \<and> (1 :: 64 word) \<le> 17592186044417 \<and> makeslice_panics 17592186044417
   \<and> GetDownloadChunks 1000 17592186044417 = Inl MakeSliceLenOutOfRange"
proof -
  have le: "(1 :: 64 word) \<le> 3" "(1 :: 64 word) \<le> 17592186044417" by simp_all
  have ok: "\<not> makeslice_panics 3" by (simp add: makeslice_accepts_small)
  have no: "makeslice_panics 17592186044417" by (simp add: makeslice_panics_iff)
  from GetDownloadChunks_partitions [of 3 1000] GetDownloadChunks_partitions [of 17592186044417 1000]
    plan_1000_3 le ok no
  show ?thesis by simp
qed

text \<open>
  C9.  \<^verbatim>\<open>GetDownloadChunks(1000, 3)\<close> is exactly \<open>{0,333}, {333,666}, {666,1000}\<close>: the
  base chunk size is 333, and the last chunk takes the remaining byte and ends at the
  total size.
\<close>

theorem GetDownloadChunks_1000_3:
  "GetDownloadChunks 1000 3 =
     Inr [\<lparr>Start = 0, End = 333\<rparr>, \<lparr>Start = 333, End = 666\<rparr>, \<lparr>Start = 666, End = 1000\<rparr>]
   \<and> (1000 :: 64 word) div 3 = 333
   \<and> End (last [\<lparr>Start = 0, End = 333\<rparr>, \<lparr>Start = 333, End = 666\<rparr>,
                 \<lparr>Start = 666, End = (1000 :: 64 word)\<rparr>]) = 1000"
  using plan_1000_3 by simp

text \<open>
  C2, as the claim states it, fails: with a worker count of 0 the planner does not behave
  as with 1, it panics on the division \<^verbatim>\<open>size / threads\<close>.
\<close>

theorem GetDownloadChunks_zero_threads_counterexample:
  "GetDownloadChunks 1000 0 = Inl DivideByZero
   \<and> GetDownloadChunks 1000 1 = Inr [\<lparr>Start = 0, End = 1000\<rparr>]"
proof -
  have "plan_of 1000 1 = [\<lparr>Start = 0, End = 1000\<rparr>]" by code_simp
  then show ?thesis
    by (simp add: GetDownloadChunks_plan_of makeslice_accepts_small) (simp add: GetDownloadChunks_def)
qed

text \<open>
  C2, amended.  \<^verbatim>\<open>GetDownloadChunks\<close> is not total.  It panics in exactly two cases,
  whatever the total size: with an integer division by zero when the worker count is 0,
  and with \<^verbatim>\<open>makeslice: len out of range\<close> when the worker count is not 0 and \<^verbatim>\<open>make\<close>
  refuses it (a count above \<^verbatim>\<open>1 << 44\<close> with the runtime's \<^verbatim>\<open>maxAlloc\<close> of
  \<^verbatim>\<open>1 << 48\<close>).  For every other worker count it returns a plan with one chunk per
  worker.  The caller \<^verbatim>\<open>main\<close> rejects a thread count that is not positive, so it never
  causes the division by zero; it has no upper bound, and the count 9223372036854775807
  that it passes on panics in \<^verbatim>\<open>make\<close>.
\<close>

theorem GetDownloadChunks_panics:
  "(GetDownloadChunks sz threads = Inl DivideByZero \<longleftrightarrow> threads = 0)
   \<and> (GetDownloadChunks sz threads = Inl MakeSliceLenOutOfRange \<longleftrightarrow>
        threads \<noteq> 0 \<and> makeslice_panics threads)
   \<and> (threads \<noteq> 0 \<and> \<not> makeslice_panics threads \<longrightarrow>
        (\<exists>plan. GetDownloadChunks sz threads = Inr plan \<and> length plan = unat threads))
   \<and> (makeslice_panics threads \<longleftrightarrow> 17592186044416 < unat threads)
   \<and> (main_threads arg = Some t \<longrightarrow> t \<noteq> 0 \<and> GetDownloadChunks sz t \<noteq> Inl DivideByZero)
   \<and> main_threads ''9223372036854775807'' = Some 9223372036854775807
   \<and> GetDownloadChunks sz 9223372036854775807 = Inl MakeSliceLenOutOfRange"
proof (intro conjI impI)
  show "GetDownloadChunks sz threads = Inl DivideByZero \<longleftrightarrow> threads = 0"
    by (simp add: GetDownloadChunks_def)
  show "GetDownloadChunks sz threads = Inl MakeSliceLenOutOfRange \<longleftrightarrow>
        threads \<noteq> 0 \<and> makeslice_panics threads"
    by (simp add: GetDownloadChunks_def)
  show "\<exists>plan. GetDownloadChunks sz threads = Inr plan \<and> length plan = unat threads"
    if "threads \<noteq> 0 \<and> \<not> makeslice_panics threads"
    using that by (simp add: GetDownloadChunks_plan_of plan_of_length)
  show "makeslice_panics threads \<longleftrightarrow> 17592186044416 < unat threads"
    by (rule makeslice_panics_iff)
  show "t \<noteq> 0" if "main_threads arg = Some t"
    using that by (rule main_threads_positive)
  show "GetDownloadChunks sz t \<noteq> Inl DivideByZero" if "main_threads arg = Some t"
    using main_threads_positive [OF that] by (simp add: GetDownloadChunks_def)
  show "main_threads ''9223372036854775807'' = Some 9223372036854775807"
    by (rule main_threads_max_int64)
  show "GetDownloadChunks sz 9223372036854775807 = Inl MakeSliceLenOutOfRange"
    by (rule plan_max_int64)
qed

theorem GetDownloadChunks_panics_witness:
  "(3 :: 64 word) \<noteq> 0 \<and> \<not> makeslice_panics 3
   \<and> GetDownloadChunks 1000 3 =
       Inr [\<lparr>Start = 0, End = 333\<rparr>, \<lparr>Start = 333, End = 666\<rparr>, \<lparr>Start = 666, End = 1000\<rparr>]
   \<and> GetDownloadChunks 1000 0 = Inl DivideByZero
   \<and> main_threads ''3'' = Some 3 \<and> main_threads ''0'' = None
   \<and> GetDownloadChunks 1000 3 \<noteq> Inl DivideByZero
   \<and> main_threads ''9223372036854775807'' = Some 9223372036854775807
   \<and> GetDownloadChunks 1000 9223372036854775807 = Inl MakeSliceLenOutOfRange"
proof -
  have m: "main_threads ''3'' = Some 3" "main_threads ''0'' = None" by code_simp+
  have ok: "\<not> makeslice_panics 3" by (simp add: makeslice_accepts_small)
  show ?thesis
    using GetDownloadChunks_panics [of 1000 3 "''3''" 3] GetDownloadChunks_panics [of 1000 0 "''3''" 3]
      m ok plan_1000_3
    by simp
qed

text \<open>
  C3, as the claim states it, fails: for a total size of 0 the plan is not capped at one
  chunk; with two workers it has two chunks \<open>{0,0}\<close>.
\<close>

theorem GetDownloadChunks_zero_size_counterexample:
  "GetDownloadChunks 0 2 = Inr [\<lparr>Start = 0, End = 0\<rparr>, \<lparr>Start = 0, End = 0\<rparr>]"
proof -
  have "plan_of 0 2 = [\<lparr>Start = 0, End = 0\<rparr>, \<lparr>Start = 0, End = 0\<rparr>]" by code_simp
  then show ?thesis
    by (simp add: GetDownloadChunks_plan_of makeslice_accepts_small)
qed

text \<open>
  C3, amended.  For every worker count of at least 1 that \<^verbatim>\<open>make\<close> accepts (at most
  \<^verbatim>\<open>1 << 44\<close> with the runtime's \<^verbatim>\<open>maxAlloc\<close> of \<^verbatim>\<open>1 << 48\<close>) the plan has exactly as
  many chunks as workers were requested, whatever the total size, and is never empty;
  when the total size is 0 every one of these chunks is \<open>{0,0}\<close>.  For a larger worker
  count the call panics in \<^verbatim>\<open>make\<close> and there is no plan.
\<close>

theorem GetDownloadChunks_length:
  "(1 \<le> threads \<and> \<not> makeslice_panics threads \<longrightarrow>
      (\<exists>plan. GetDownloadChunks sz threads = Inr plan \<and> length plan = unat threads \<and> plan \<noteq> []
         \<and> (sz = 0 \<longrightarrow> plan = replicate (unat threads) \<lparr>Start = 0, End = 0\<rparr>)))
   \<and> (1 \<le> threads \<and> makeslice_panics threads \<longrightarrow>
      GetDownloadChunks sz threads = Inl MakeSliceLenOutOfRange)"
proof (intro conjI impI)
  assume h: "1 \<le> threads \<and> \<not> makeslice_panics threads"
  then have nz: "threads \<noteq> 0" by auto
  then have "0 < unat threads" by (simp add: unat_gt_0)
  then have "plan_of sz threads \<noteq> []"
    using plan_of_length [of sz threads] by auto
  then show "\<exists>plan. GetDownloadChunks sz threads = Inr plan \<and> length plan = unat threads
      \<and> plan \<noteq> [] \<and> (sz = 0 \<longrightarrow> plan = replicate (unat threads) \<lparr>Start = 0, End = 0\<rparr>)"
    using nz h by (auto simp: GetDownloadChunks_plan_of plan_of_length plan_of_zero_size)
next
  assume h: "1 \<le> threads \<and> makeslice_panics threads"
  then have "threads \<noteq> 0" by auto
  with h show "GetDownloadChunks sz threads = Inl MakeSliceLenOutOfRange"
    by (simp add: GetDownloadChunks_makeslice)
qed

theorem GetDownloadChunks_length_witness:
  "(1 :: 64 word) \<le> 2 \<and> \<not> makeslice_panics 2
   \<and> GetDownloadChunks 0 2 = Inr (replicate (unat (2 :: 64 word)) \<lparr>Start = 0, End = 0\<rparr>)
   \<and> length (replicate (unat (2 :: 64 word)) \<lparr>Start = 0, End = (0 :: 64 word)\<rparr>) = 2
   \<and> GetDownloadChunks 1000 3 =
       Inr [\<lparr>Start = 0, End = 333\<rparr>, \<lparr>Start = 333, End = 666\<rparr>, \<lparr>Start = 666, End = 1000\<rparr>]
   \<and> length [\<lparr>Start = 0, End = 333\<rparr>, \<lparr>Start = 333, End = 666\<rparr>,
               \<lparr>Start = 666, End = (1000 :: 64 word)\<rparr>] = unat (3 :: 64 word)
   \<and> (1 :: 64 word) \<le> 9223372036854775807 \<and> makeslice_panics 9223372036854775807
   \<and> GetDownloadChunks 0 9223372036854775807 = Inl MakeSliceLenOutOfRange"
proof -
  have le: "(1 :: 64 word) \<le> 2" "(1 :: 64 word) \<le> 9223372036854775807" by simp_all
  have ok: "\<not> makeslice_panics 2" by (simp add: makeslice_accepts_small)
  have no: "makeslice_panics 9223372036854775807" by (simp add: makeslice_panics_iff)
  from GetDownloadChunks_length [of 2 0] GetDownloadChunks_length [of 9223372036854775807 0]
    le ok no plan_1000_3
  show ?thesis by auto
qed

section \<open>The Size Resolver\<close>

subsection \<open>What \<^verbatim>\<open>ParseInt\<close> accepts\<close>

lemma digits_value_mono: "n \<le> digits_value n s"
proof (induction s arbitrary: n)
  case Nil
  show ?case by simp
next
  case (Cons c s)
  have "n \<le> n * 10 + (of_char c - 48)" by simp
  also have "\<dots> \<le> digits_value (n * 10 + (of_char c - 48)) s" by (rule Cons.IH)
  finally show ?case by simp
qed

lemma cutoff_unat: "unat cutoff = 1844674407370955162"
  by (simp add: cutoff_def)

lemma cutoff_iff:
  fixes n :: "64 word"
  shows "n \<ge> cutoff \<longleftrightarrow> 2 ^ 64 \<le> unat n * 10"
  by (simp add: word_le_nat_alt cutoff_unat, arith)

lemma maxVal_top: "\<not> (n :: 64 word) > maxVal"
proof -
  have "unat n < 2 ^ 64" using unsigned_less [of n] by simp
  then show ?thesis by (simp add: maxVal_def word_less_nat_alt not_less)
qed

lemma times_ten_unat:
  fixes n :: "64 word"
  assumes "unat n * 10 < 2 ^ 64"
  shows "unat (n * 10) = unat n * 10"
proof -
  have "unat n * unat (10 :: 64 word) < 2 ^ LENGTH(64)" using assms by simp
  then have "unat (n * 10) = unat n * unat (10 :: 64 word)"
    by (simp add: unat_mult_lem [THEN iffD1])
  then show ?thesis by simp
qed

lemma digit_unat:
  assumes "d \<le> 9"
  shows "unat (of_nat d :: 64 word) = d"
proof -
  have "d < 2 ^ LENGTH(64)" using assms by simp
  then show ?thesis by (simp add: unat_of_nat take_bit_nat_eq_self)
qed

lemma add_digit_wraps:
  fixes m :: "64 word"
  assumes "d \<le> 9"
  shows "m + of_nat d < m \<longleftrightarrow> 2 ^ 64 \<le> unat m + d"
proof -
  have "m \<le> m + of_nat d \<longleftrightarrow> unat m + unat (of_nat d :: 64 word) < 2 ^ LENGTH(64)"
    by (rule no_olen_add_nat)
  then show ?thesis using digit_unat [OF assms] by (simp add: not_le [symmetric])
qed

lemma add_digit_unat:
  fixes m :: "64 word"
  assumes "d \<le> 9" "unat m + d < 2 ^ 64"
  shows "unat (m + of_nat d) = unat m + d"
proof -
  have "unat m + unat (of_nat d :: 64 word) < 2 ^ LENGTH(64)"
    using assms digit_unat [OF assms(1)] by simp
  then have "unat (m + of_nat d) = unat m + unat (of_nat d :: 64 word)"
    by (simp add: unat_add_lem [THEN iffD1])
  then show ?thesis using digit_unat [OF assms(1)] by simp
qed

lemma ParseUint_loop_step:
  assumes "is_digit c"
  shows "ParseUint_loop n (c # s) =
           (if unat n * 10 + (of_char c - 48) < 2 ^ 64
            then ParseUint_loop (of_nat (unat n * 10 + (of_char c - 48))) s
            else Inl ErrRange)"
proof -
  define d where "d = (of_char c - 48 :: nat)"
  have d9: "d \<le> 9" using assms unfolding is_digit_def d_def by arith
  have unf: "ParseUint_loop n (c # s) =
               (if n \<ge> cutoff then Inl ErrRange
                else if n * 10 + of_nat d < n * 10 then Inl ErrRange
                else ParseUint_loop (n * 10 + of_nat d) s)"
    using assms unfolding d_def by (simp add: is_digit_def maxVal_top Let_def)
  have "ParseUint_loop n (c # s) =
           (if unat n * 10 + d < 2 ^ 64
            then ParseUint_loop (of_nat (unat n * 10 + d)) s
            else Inl ErrRange)"
  proof (cases "2 ^ 64 \<le> unat n * 10")
    case True
    then have c1: "n \<ge> cutoff" by (simp only: cutoff_iff)
    have c2: "\<not> unat n * 10 + d < 2 ^ 64" using True by arith
    show ?thesis unfolding unf using c1 c2 by (simp only: if_True if_False)
  next
    case False
    then have c1: "\<not> n \<ge> cutoff" by (simp only: cutoff_iff not_False_eq_True)
    from False have small: "unat n * 10 < 2 ^ 64" by simp
    have m: "unat (n * 10) = unat n * 10" by (rule times_ten_unat [OF small])
    have wrap: "n * 10 + of_nat d < n * 10 \<longleftrightarrow> 2 ^ 64 \<le> unat n * 10 + d"
      using add_digit_wraps [OF d9, of "n * 10"] unfolding m .
    show ?thesis
    proof (cases "unat n * 10 + d < 2 ^ 64")
      case True
      then have c3: "\<not> n * 10 + of_nat d < n * 10" unfolding wrap by simp
      have val: "n * 10 + of_nat d = of_nat (unat n * 10 + d)" by simp
      show ?thesis unfolding unf using c1 c3 True val by (simp only: if_True if_False)
    next
      case False
      then have c3: "n * 10 + of_nat d < n * 10" unfolding wrap by simp
      show ?thesis unfolding unf using c1 c3 False by (simp only: if_True if_False)
    qed
  qed
  then show ?thesis unfolding d_def .
qed

lemma ParseUint_loop_nondigit:
  "\<not> is_digit c \<Longrightarrow> ParseUint_loop n (c # s) = Inl ErrSyntax"
  by (auto simp: is_digit_def)

lemma unat_of_nat_64: "m < 2 ^ 64 \<Longrightarrow> unat (of_nat m :: 64 word) = m"
  by (simp add: unat_of_nat take_bit_nat_eq_self)

lemma ParseUint_loop_digits:
  "list_all is_digit s \<Longrightarrow>
   ParseUint_loop n s =
     (if digits_value (unat n) s < 2 ^ 64 then Inr (of_nat (digits_value (unat n) s))
      else Inl ErrRange)"
proof (induction s arbitrary: n)
  case Nil
  have "unat n < 2 ^ 64" using unsigned_less [of n] by simp
  then show ?case by simp
next
  case (Cons c s)
  let ?m = "unat n * 10 + (of_char c - 48)"
  from Cons.prems have c: "is_digit c" and s: "list_all is_digit s" by simp_all
  have dv: "digits_value (unat n) (c # s) = digits_value ?m s" by simp
  show ?case
  proof (cases "?m < 2 ^ 64")
    case True
    have eq: "unat (of_nat ?m :: 64 word) = ?m" using True by (rule unat_of_nat_64)
    have "ParseUint_loop n (c # s) = ParseUint_loop (of_nat ?m) s"
      using True by (simp only: ParseUint_loop_step [OF c] if_True)
    also have "\<dots> = (if digits_value ?m s < 2 ^ 64 then Inr (of_nat (digits_value ?m s))
                       else Inl ErrRange)"
      using Cons.IH [OF s, of "of_nat ?m"] unfolding eq .
    finally show ?thesis unfolding dv .
  next
    case False
    have "?m \<le> digits_value ?m s" by (rule digits_value_mono)
    with False have big: "\<not> digits_value ?m s < 2 ^ 64" by simp
    have "ParseUint_loop n (c # s) = Inl ErrRange"
      using False by (simp only: ParseUint_loop_step [OF c] if_False)
    then show ?thesis unfolding dv using big by simp
  qed
qed

lemma ParseUint_loop_Inr_digits:
  "ParseUint_loop n s = Inr v \<Longrightarrow> list_all is_digit s"
proof (induction s arbitrary: n)
  case Nil
  show ?case by simp
next
  case (Cons c s)
  show ?case
  proof (cases "is_digit c")
    case True
    with Cons.prems have "ParseUint_loop (of_nat (unat n * 10 + (of_char c - 48))) s = Inr v"
      by (simp add: ParseUint_loop_step del: ParseUint_loop.simps split: if_splits)
    then have "list_all is_digit s" by (rule Cons.IH)
    with True show ?thesis by simp
  next
    case False
    with Cons.prems show ?thesis by (simp add: ParseUint_loop_nondigit del: ParseUint_loop.simps)
  qed
qed

lemma ParseUint_Inr_iff:
  "ParseUint s = Inr v \<longleftrightarrow>
     s \<noteq> [] \<and> list_all is_digit s \<and> digits_value 0 s < 2 ^ 64 \<and> v = of_nat (digits_value 0 s)"
proof (cases "s \<noteq> [] \<and> list_all is_digit s")
  case True
  then show ?thesis
    using ParseUint_loop_digits [of s 0] by (auto simp: ParseUint_def)
next
  case False
  then show ?thesis
    using ParseUint_loop_Inr_digits [of 0 s v] by (auto simp: ParseUint_def)
qed


lemma ParseUint_numeric:
  assumes "s \<noteq> []" "list_all is_digit s"
  shows "ParseUint s =
     (if digits_value 0 s < 2 ^ 64 then Inr (of_nat (digits_value 0 s)) else Inl ErrRange)"
  using assms ParseUint_loop_digits [of s 0] by (simp add: ParseUint_def)

lemma ParseInt_unfold:
  "s \<noteq> [] \<Longrightarrow>
   ParseInt s =
     (case ParseUint (unsigned_part s) of
        Inl ErrSyntax \<Rightarrow> Inl ErrSyntax
      | r \<Rightarrow>
          (let un = (case r of Inr v \<Rightarrow> v | Inl e \<Rightarrow> maxVal)
           in if hd s \<noteq> CHR ''-'' \<and> un \<ge> 2 ^ 63 then Inl ErrRange
              else if hd s = CHR ''-'' \<and> un > 2 ^ 63 then Inl ErrRange
              else Inr (if hd s = CHR ''-'' then - un else un)))"
  by (simp add: ParseInt_def unsigned_part_def Let_def)

lemma maxVal_checks:
  "maxVal \<ge> (9223372036854775808 :: 64 word)" "maxVal > (9223372036854775808 :: 64 word)"
  by (simp_all add: maxVal_def)

lemma of_nat_ge_cut:
  assumes "N < 2 ^ 64"
  shows "(of_nat N :: 64 word) \<ge> 9223372036854775808 \<longleftrightarrow> 9223372036854775808 \<le> N"
    and "(of_nat N :: 64 word) > 9223372036854775808 \<longleftrightarrow> 9223372036854775808 < N"
  using unat_of_nat_64 [OF assms] by (simp_all add: word_le_nat_alt word_less_nat_alt)

lemma ParseInt_Inr_iff:
  "ParseInt s = Inr v \<longleftrightarrow>
     numeric s \<and> - (2 ^ 63) \<le> numeric_value s \<and> numeric_value s < 2 ^ 63
       \<and> v = of_int (numeric_value s)"
proof (cases "numeric s")
  case True
  then have ne: "s \<noteq> []" and ne': "unsigned_part s \<noteq> []"
    and dig: "list_all is_digit (unsigned_part s)"
    by (auto simp: numeric_def unsigned_part_def)
  let ?N = "digits_value 0 (unsigned_part s)"
  note pu = ParseUint_numeric [OF ne' dig]
  show ?thesis
  proof (cases "?N < 2 ^ 64")
    case small: True
    then have pu': "ParseUint (unsigned_part s) = Inr (of_nat ?N)" using pu by simp
    show ?thesis
    proof (cases "hd s = CHR ''-''")
      case neg: True
      have "ParseInt s = (if 2 ^ 63 < ?N then Inl ErrRange else Inr (- of_nat ?N))"
        using neg by (simp add: ParseInt_unfold [OF ne] pu' of_nat_ge_cut [OF small] Let_def)
      moreover have "numeric_value s = - int ?N"
        using neg ne by (simp add: numeric_value_def)
      ultimately show ?thesis using True by auto
    next
      case pos: False
      have "ParseInt s = (if 2 ^ 63 \<le> ?N then Inl ErrRange else Inr (of_nat ?N))"
        using pos by (simp add: ParseInt_unfold [OF ne] pu' of_nat_ge_cut [OF small] Let_def)
      moreover have "numeric_value s = int ?N"
        using pos by (simp add: numeric_value_def)
      ultimately show ?thesis using True by auto
    qed
  next
    case big: False
    then have pu': "ParseUint (unsigned_part s) = Inl ErrRange" using pu by simp
    have "ParseInt s = Inl ErrRange"
      by (simp add: ParseInt_unfold [OF ne] pu' maxVal_checks Let_def)
    moreover have "numeric_value s = - int ?N \<or> numeric_value s = int ?N"
      by (simp add: numeric_value_def)
    ultimately show ?thesis using big by auto
  qed
next
  case False
  have "ParseInt s \<noteq> Inr v"
  proof (cases "s = []")
    case True
    then show ?thesis by (simp add: ParseInt_def)
  next
    case ne: False
    have nu: "ParseUint (unsigned_part s) \<noteq> Inr un" for un
      using False by (auto simp: ParseUint_Inr_iff numeric_def)
    show ?thesis
    proof (cases "ParseUint (unsigned_part s)")
      case (Inl e)
      then show ?thesis
        by (cases e) (simp_all add: ParseInt_unfold [OF ne] maxVal_checks Let_def)
    next
      case (Inr un)
      with nu [of un] show ?thesis by blast
    qed
  qed
  with False show ?thesis by simp
qed

lemma ParseInt_sint:
  assumes "ParseInt s = Inr v"
  shows "sint v = numeric_value s"
proof -
  from assms have lo: "- (2 ^ 63) \<le> numeric_value s" and hi: "numeric_value s < 2 ^ 63"
    and v: "v = of_int (numeric_value s)"
    by (simp_all add: ParseInt_Inr_iff)
  have "sint v = signed_take_bit (LENGTH(64) - 1) (numeric_value s)"
    unfolding v by (rule sint_sbintrunc')
  also have "\<dots> = numeric_value s"
    using lo hi by (simp add: signed_take_bit_int_eq_self)
  finally show ?thesis .
qed

subsection \<open>What \<^verbatim>\<open>GetFileSize\<close> returns\<close>

lemma uint_of_negative:
  fixes n :: "64 word"
  assumes "sint n < 0"
  shows "uint n = 2 ^ 64 + sint n"
proof -
  have lo: "- (2 ^ 63) \<le> sint n" using sint_ge [of n] by simp
  have "uint n = take_bit 64 (sint n)" by (simp add: uint_sint)
  also have "\<dots> = sint n mod 2 ^ 64" by (simp add: take_bit_eq_mod)
  also have "\<dots> = (sint n + 2 ^ 64) mod 2 ^ 64" by simp
  also have "\<dots> = sint n + 2 ^ 64" using lo assms by (intro mod_pos_pos_trivial) simp_all
  finally show ?thesis by simp
qed

lemma GetFileSize_parsed:
  "Head 0 url = HeadResponse header \<Longrightarrow> header ''Content-Length'' = Some (v, vs) \<Longrightarrow>
   GetFileSize Head url =
     (case ParseInt v of Inl err \<Rightarrow> (0, Some (FailedToDetermineSizeParse err))
                        | Inr sz \<Rightarrow> (sz, None))"
  by (simp add: GetFileSize_def split: sum.splits)

lemma GetFileSize_first_call:
  "Head' 0 url = Head 0 url \<Longrightarrow> GetFileSize Head' url = GetFileSize Head url"
  by (simp add: GetFileSize_def)

lemma ParseInt_numeric_out_of_range:
  assumes "numeric v" "\<not> (- (2 ^ 63) \<le> numeric_value v \<and> numeric_value v < 2 ^ 63)"
  shows "ParseInt v = Inl ErrRange"
proof -
  from assms(1) have ne: "v \<noteq> []" and ne': "unsigned_part v \<noteq> []"
    and dig: "list_all is_digit (unsigned_part v)"
    by (auto simp: numeric_def unsigned_part_def)
  have no: "ParseInt v \<noteq> Inr n" for n using assms(2) by (auto simp: ParseInt_Inr_iff)
  have "ParseUint (unsigned_part v) \<noteq> Inl ErrSyntax"
    using ParseUint_numeric [OF ne' dig] by (simp split: if_splits)
  then have "ParseInt v \<noteq> Inl ErrSyntax"
    by (auto simp: ParseInt_unfold [OF ne] Let_def split: sum.splits num_err.splits if_splits)
  with no show ?thesis
    by (cases "ParseInt v") (auto intro: num_err.exhaust)
qed

subsection \<open>The claims about the resolver\<close>

text \<open>
  C8, as the claim states it, fails: the error cases are not only a failed transport, a
  missing header and a non-numeric value.  The value \<open>9223372036854775808\<close> is numeric,
  the transport succeeds and the header is there, and \<^verbatim>\<open>GetFileSize\<close> returns an error
  and the size 0, because \<^verbatim>\<open>ParseInt\<close> reports the value out of the range of \<^verbatim>\<open>int64\<close>.
\<close>

theorem GetFileSize_out_of_range_counterexample:
  "numeric ''9223372036854775808'' \<and>
   GetFileSize (content_length_reply ''9223372036854775808'') ''http://host/file'' =
     (0, Some (FailedToDetermineSizeParse ErrRange))"
  by code_simp

text \<open>
  C8, amended.  \<^verbatim>\<open>GetFileSize\<close> returns an error, with the size 0, in each of these
  cases, by three distinct errors: the call of \<^verbatim>\<open>http.Head\<close> fails in the transport; the
  response has no \<^verbatim>\<open>Content-Length\<close> header; the first value of the header is not a
  base-10 integer of the signed 64-bit range, that is, it is not numeric, or it is
  numeric and lies outside \<^verbatim>\<open>[-2^63, 2^63 - 1]\<close> (a range error).  It never retries:
  the outcome of its first call of \<^verbatim>\<open>http.Head\<close> decides the result, whatever a further
  call would give.  In every other case it returns the parsed value, as a \<^verbatim>\<open>uint64\<close>,
  with no error.
\<close>

theorem GetFileSize_outcomes:
  "(Head 0 url = HeadError err \<longrightarrow>
      GetFileSize Head url = (0, Some (FailedToMakeRequest url err)))
   \<and> (Head 0 url = HeadResponse header \<and> header ''Content-Length'' = None \<longrightarrow>
      GetFileSize Head url = (0, Some FailedToDetermineSize))
   \<and> (Head 0 url = HeadResponse header \<and> header ''Content-Length'' = Some (v, vs)
        \<and> \<not> numeric v \<longrightarrow>
      (\<exists>e. GetFileSize Head url = (0, Some (FailedToDetermineSizeParse e))))
   \<and> (Head 0 url = HeadResponse header \<and> header ''Content-Length'' = Some (v, vs)
        \<and> numeric v \<and> \<not> (- (2 ^ 63) \<le> numeric_value v \<and> numeric_value v < 2 ^ 63) \<longrightarrow>
      GetFileSize Head url = (0, Some (FailedToDetermineSizeParse ErrRange)))
   \<and> (Head 0 url = HeadResponse header \<and> header ''Content-Length'' = Some (v, vs)
        \<and> numeric v \<and> - (2 ^ 63) \<le> numeric_value v \<and> numeric_value v < 2 ^ 63 \<longrightarrow>
      GetFileSize Head url = (of_int (numeric_value v), None))
   \<and> (Head' 0 url = Head 0 url \<longrightarrow> GetFileSize Head' url = GetFileSize Head url)"
proof (intro conjI impI)
  show "GetFileSize Head url = (0, Some (FailedToMakeRequest url err))"
    if "Head 0 url = HeadError err"
    using that by (simp add: GetFileSize_def)
  show "GetFileSize Head url = (0, Some FailedToDetermineSize)"
    if "Head 0 url = HeadResponse header \<and> header ''Content-Length'' = None"
    using that by (simp add: GetFileSize_def)
  show "\<exists>e. GetFileSize Head url = (0, Some (FailedToDetermineSizeParse e))"
    if h: "Head 0 url = HeadResponse header \<and> header ''Content-Length'' = Some (v, vs)
        \<and> \<not> numeric v"
  proof -
    from h have "ParseInt v \<noteq> Inr n" for n by (simp add: ParseInt_Inr_iff)
    then obtain e where "ParseInt v = Inl e" by (cases "ParseInt v") auto
    with h show ?thesis by (simp add: GetFileSize_parsed)
  qed
  show "GetFileSize Head url = (0, Some (FailedToDetermineSizeParse ErrRange))"
    if h: "Head 0 url = HeadResponse header \<and> header ''Content-Length'' = Some (v, vs)
        \<and> numeric v \<and> \<not> (- (2 ^ 63) \<le> numeric_value v \<and> numeric_value v < 2 ^ 63)"
    using h ParseInt_numeric_out_of_range [of v] by (simp add: GetFileSize_parsed)
  show "GetFileSize Head url = (of_int (numeric_value v), None)"
    if h: "Head 0 url = HeadResponse header \<and> header ''Content-Length'' = Some (v, vs)
        \<and> numeric v \<and> - (2 ^ 63) \<le> numeric_value v \<and> numeric_value v < 2 ^ 63"
  proof -
    from h have "ParseInt v = Inr (of_int (numeric_value v))" by (simp add: ParseInt_Inr_iff)
    with h show ?thesis by (simp add: GetFileSize_parsed)
  qed
  show "GetFileSize Head' url = GetFileSize Head url" if "Head' 0 url = Head 0 url"
    using that by (rule GetFileSize_first_call)
qed

theorem GetFileSize_outcomes_witness:
  "numeric ''1000'' \<and> numeric_value ''1000'' = 1000
   \<and> GetFileSize (content_length_reply ''1000'') ''http://host/file'' = (1000, None)
   \<and> numeric ''9223372036854775808'' \<and> numeric_value ''9223372036854775808'' = 2 ^ 63
   \<and> GetFileSize (content_length_reply ''9223372036854775808'') ''http://host/file''
       = (0, Some (FailedToDetermineSizeParse ErrRange))
   \<and> GetFileSize no_header_reply ''http://host/file'' = (0, Some FailedToDetermineSize)
   \<and> GetFileSize transport_failing ''http://host/file''
       = (0, Some (FailedToMakeRequest ''http://host/file'' ''no such host''))
   \<and> failing_once 1 ''http://host/file'' = HeadResponse [''Content-Length'' \<mapsto> (''1000'', [])]
   \<and> GetFileSize failing_once ''http://host/file''
       = (0, Some (FailedToMakeRequest ''http://host/file'' ''connection reset''))"
proof -
  have n1: "numeric ''1000''" by code_simp
  have v1: "numeric_value ''1000'' = 1000" by (simp add: numeric_value_def unsigned_part_def)
  have n2: "numeric ''9223372036854775808''" by code_simp
  have v2: "numeric_value ''9223372036854775808'' = 2 ^ 63"
    by (simp add: numeric_value_def unsigned_part_def)
  have a: "GetFileSize (content_length_reply ''1000'') ''http://host/file'' = (1000, None)"
    using GetFileSize_outcomes [of "content_length_reply ''1000''" "''http://host/file''" "''x''"
        "[''Content-Length'' \<mapsto> (''1000'', [])]" "''1000''" "[]"] n1 v1
    by (simp add: content_length_reply_def)
  have b: "GetFileSize (content_length_reply ''9223372036854775808'') ''http://host/file''
       = (0, Some (FailedToDetermineSizeParse ErrRange))"
    using GetFileSize_outcomes [of "content_length_reply ''9223372036854775808''"
        "''http://host/file''" "''x''"
        "[''Content-Length'' \<mapsto> (''9223372036854775808'', [])]" "''9223372036854775808''" "[]"]
      n2 v2
    by (simp add: content_length_reply_def)
  have c: "GetFileSize no_header_reply ''http://host/file'' = (0, Some FailedToDetermineSize)"
    using GetFileSize_outcomes [of no_header_reply "''http://host/file''" "''x''" Map.empty]
    by (simp add: no_header_reply_def)
  have d: "GetFileSize transport_failing ''http://host/file''
       = (0, Some (FailedToMakeRequest ''http://host/file'' ''no such host''))"
    using GetFileSize_outcomes [of transport_failing "''http://host/file''" "''no such host''"]
    by (simp add: transport_failing_def)
  have e: "failing_once 1 ''http://host/file'' = HeadResponse [''Content-Length'' \<mapsto> (''1000'', [])]"
    by (simp add: failing_once_def)
  have f: "GetFileSize failing_once ''http://host/file''
       = (0, Some (FailedToMakeRequest ''http://host/file'' ''connection reset''))"
    using GetFileSize_outcomes [of failing_once "''http://host/file''" "''connection reset''"]
    by (simp add: failing_once_def)
  from n1 v1 a n2 v2 b c d e f show ?thesis by simp
qed

text \<open>
  C10.  When the first \<^verbatim>\<open>Content-Length\<close> value of the HEAD response parses as a
  negative 64-bit integer, \<^verbatim>\<open>GetFileSize\<close> returns no error, and the size it returns is
  the parsed value reinterpreted modulo \<^verbatim>\<open>2^64\<close>: the value plus \<^verbatim>\<open>2^64\<close>.  For
  \<open>-1\<close> the size is \<^verbatim>\<open>2^64 - 1\<close>.
\<close>

theorem GetFileSize_negative:
  "Head 0 url = HeadResponse header \<Longrightarrow> header ''Content-Length'' = Some (v, vs) \<Longrightarrow>
   ParseInt v = Inr n \<Longrightarrow> sint n < 0 \<Longrightarrow>
   GetFileSize Head url = (n, None) \<and> sint n = numeric_value v
     \<and> int (unat n) = 2 ^ 64 + numeric_value v"
proof -
  assume h: "Head 0 url = HeadResponse header" "header ''Content-Length'' = Some (v, vs)"
    and p: "ParseInt v = Inr n" and neg: "sint n < 0"
  have "GetFileSize Head url = (n, None)"
    using h p by (simp add: GetFileSize_parsed)
  moreover have s: "sint n = numeric_value v" by (rule ParseInt_sint [OF p])
  moreover have "int (unat n) = 2 ^ 64 + sint n"
    using uint_of_negative [OF neg] by simp
  ultimately show ?thesis by simp
qed

theorem GetFileSize_negative_witness:
  "content_length_reply ''-1'' 0 ''http://host/file'' = HeadResponse [''Content-Length'' \<mapsto> (''-1'', [])]
   \<and> ParseInt ''-1'' = Inr (- 1) \<and> sint (- 1 :: 64 word) < 0
   \<and> GetFileSize (content_length_reply ''-1'') ''http://host/file'' = (18446744073709551615, None)
   \<and> int (unat (- 1 :: 64 word)) = 2 ^ 64 + numeric_value ''-1''"
proof -
  have a: "content_length_reply ''-1'' 0 ''http://host/file'' = HeadResponse [''Content-Length'' \<mapsto> (''-1'', [])]"
    by (simp add: content_length_reply_def)
  have b: "[''Content-Length'' \<mapsto> (''-1'', [])] ''Content-Length'' = Some (''-1'', [])" by simp
  have c: "ParseInt ''-1'' = Inr (- 1)" by code_simp
  have d: "sint (- 1 :: 64 word) < 0" by simp
  show ?thesis
    using GetFileSize_negative [of "content_length_reply ''-1''" "''http://host/file''"
        "[''Content-Length'' \<mapsto> (''-1'', [])]" "''-1''" "[]" "- 1", OF a b c d] a c d
    by simp
qed

section \<open>The Fetch Coordinator\<close>

subsection \<open>The receive loop, the tasks and the request\<close>

lemma recv_loop_result:
  "i + length chan = n \<Longrightarrow>
   recv_loop i n chan =
     Some (case dropWhile (\<lambda>r. snd r = None) chan of
             [] \<Rightarrow> (None, [])
           | r # rest \<Rightarrow> (snd r, rest))"
proof (induction chan arbitrary: i)
  case Nil
  then show ?case by (subst recv_loop.simps) simp
next
  case (Cons r chan)
  obtain k err where r: "r = (k, err)" by (cases r)
  from Cons.prems have lt: "i < n" by simp
  show ?case
  proof (cases "err = None")
    case True
    have "recv_loop i n (r # chan) = recv_loop (i + 1) n chan"
      using lt True r by (subst recv_loop.simps) simp
    also have "\<dots> = Some (case dropWhile (\<lambda>r. snd r = None) chan of
             [] \<Rightarrow> (None, []) | r # rest \<Rightarrow> (snd r, rest))"
      using Cons.prems by (intro Cons.IH) simp
    finally show ?thesis using True r by simp
  next
    case False
    then show ?thesis using lt r by (subst recv_loop.simps) auto
  qed
qed

lemma valid_schedule_length: "valid_schedule n schedule \<Longrightarrow> length schedule = n"
proof -
  assume "valid_schedule n schedule"
  then have "length (sort schedule) = length [0 ..< n]" by (simp add: valid_schedule_def)
  then show ?thesis by simp
qed

lemma valid_schedule_set: "valid_schedule n schedule \<Longrightarrow> set schedule = {..< n}"
proof -
  assume "valid_schedule n schedule"
  then have "set (sort schedule) = set [0 ..< n]" by (simp add: valid_schedule_def)
  then show ?thesis by (simp add: lessThan_atLeast0)
qed

lemma first_of_dropWhile:
  "(case dropWhile (\<lambda>r. snd r = None) chan of [] \<Rightarrow> None | r # rest \<Rightarrow> snd r) =
   (case filter (\<lambda>r. r \<noteq> None) (map snd chan) of [] \<Rightarrow> None | r # rs \<Rightarrow> r)"
  by (induction chan) auto

lemma dropWhile_head_fails:
  "dropWhile (\<lambda>r. snd r = None) chan = r # rest \<Longrightarrow> snd r \<noteq> None \<and> r \<in> set chan"
  using hd_dropWhile [of "\<lambda>r. snd r = None" chan] set_dropWhileD [of r "\<lambda>r. snd r = None" chan]
  by auto

lemma task_report_error:
  "task_report w k url output c = Some e \<Longrightarrow>
     (\<exists>x. e = FailedToCreateRequest url x) \<or> (\<exists>x. e = FailedToMakeRequest url x)
     \<or> (\<exists>code. e = UnsuccessfulStatusCode url code \<and> code \<noteq> 206)
     \<or> (\<exists>x. e = UnsuccessfulWriting output x)"
  by (auto simp: task_report_def chunk_task_def
           split: option.splits sum.splits if_splits prod.splits)

lemma no_offsets: "Offsets a b \<notin> set (error_detail e)"
  by (cases e) simp_all

lemma DownloadChunks_created:
  assumes "os_Create w output = None" "valid_schedule (length chunks) schedule"
  shows "DownloadChunks w schedule url chunks output =
     Some (case dropWhile (\<lambda>r. snd r = None)
                  (map (\<lambda>k. (k, task_report w k url output (chunks ! k))) schedule) of
             [] \<Rightarrow> \<lparr>returned = None, launched = length chunks, blocked = []\<rparr>
           | r # rest \<Rightarrow> \<lparr>returned = snd r, launched = length chunks, blocked = map fst rest\<rparr>)"
proof -
  define chan where "chan = map (\<lambda>k. (k, task_report w k url output (chunks ! k))) schedule"
  have "0 + length chan = length chunks"
    using valid_schedule_length [OF assms(2)] by (simp add: chan_def)
  then have loop: "recv_loop 0 (length chunks) chan =
     Some (case dropWhile (\<lambda>r. snd r = None) chan of
             [] \<Rightarrow> (None, []) | r # rest \<Rightarrow> (snd r, rest))"
    by (rule recv_loop_result)
  define pending where "pending = dropWhile (\<lambda>r. snd r = None) chan"
  have "DownloadChunks w schedule url chunks output =
     Some (case pending of
             [] \<Rightarrow> \<lparr>returned = None, launched = length chunks, blocked = []\<rparr>
           | r # rest \<Rightarrow> \<lparr>returned = snd r, launched = length chunks, blocked = map fst rest\<rparr>)"
    unfolding DownloadChunks_def chan_def [symmetric] loop pending_def [symmetric]
    using assms(1) by (cases pending) simp_all
  then have "DownloadChunks w schedule url chunks output =
     Some (case dropWhile (\<lambda>r. snd r = None) chan of
             [] \<Rightarrow> \<lparr>returned = None, launched = length chunks, blocked = []\<rparr>
           | r # rest \<Rightarrow> \<lparr>returned = snd r, launched = length chunks, blocked = map fst rest\<rparr>)"
    unfolding pending_def .
  then show ?thesis unfolding chan_def .
qed


lemma DownloadChunks_returned:
  assumes "os_Create w output = None" "valid_schedule (length chunks) schedule"
  obtains d where "DownloadChunks w schedule url chunks output = Some d"
    and "launched d = length chunks"
    and "returned d = first_failure w schedule url chunks output"
    and "returned d = None \<longleftrightarrow>
           (\<forall>k \<in> {..< length chunks}. task_report w k url output (chunks ! k) = None)"
    and "\<And>e. returned d = Some e \<Longrightarrow>
           \<exists>k \<in> {..< length chunks}. task_report w k url output (chunks ! k) = Some e"
proof -
  define chan where "chan = map (\<lambda>k. (k, task_report w k url output (chunks ! k))) schedule"
  define pending where "pending = dropWhile (\<lambda>r. snd r = None) chan"
  define d where "d = (case pending of
             [] \<Rightarrow> \<lparr>returned = None, launched = length chunks, blocked = []\<rparr>
           | r # rest \<Rightarrow> \<lparr>returned = snd r, launched = length chunks, blocked = map fst rest\<rparr>)"
  have run: "DownloadChunks w schedule url chunks output = Some d"
    unfolding d_def pending_def chan_def by (rule DownloadChunks_created [OF assms])
  have l: "launched d = length chunks"
    by (cases pending) (simp_all add: d_def)
  have ret: "returned d = (case pending of [] \<Rightarrow> None | r # rest \<Rightarrow> snd r)"
    by (cases pending) (simp_all add: d_def)
  have snds: "map snd chan = map (\<lambda>k. task_report w k url output (chunks ! k)) schedule"
    by (simp add: chan_def comp_def)
  have ff: "returned d = first_failure w schedule url chunks output"
    unfolding ret pending_def first_of_dropWhile snds first_failure_def ..
  have members: "(\<forall>r \<in> set chan. snd r = None) \<longleftrightarrow>
           (\<forall>k \<in> {..< length chunks}. task_report w k url output (chunks ! k) = None)"
    using valid_schedule_set [OF assms(2)] by (auto simp: chan_def)
  have none: "returned d = None \<longleftrightarrow>
           (\<forall>k \<in> {..< length chunks}. task_report w k url output (chunks ! k) = None)"
  proof (cases pending)
    case Nil
    then have "\<forall>r \<in> set chan. snd r = None" by (simp add: pending_def)
    with Nil members show ?thesis by (simp add: ret)
  next
    case (Cons r rest)
    then have "snd r \<noteq> None \<and> r \<in> set chan"
      unfolding pending_def by (rule dropWhile_head_fails)
    with Cons members show ?thesis by (auto simp: ret)
  qed
  have some: "\<exists>k \<in> {..< length chunks}. task_report w k url output (chunks ! k) = Some e"
    if "returned d = Some e" for e
  proof (cases pending)
    case Nil
    with that show ?thesis by (simp add: ret)
  next
    case (Cons r rest)
    then have "r \<in> set chan"
      unfolding pending_def using dropWhile_head_fails by blast
    moreover have "snd r = Some e" using that Cons by (simp add: ret)
    ultimately show ?thesis
      using valid_schedule_set [OF assms(2)] by (auto simp: chan_def)
  qed
  show ?thesis using that [OF run l ff none some] .
qed

lemma chunk_task_status:
  "http_NewRequest w url = None \<Longrightarrow> http_Do w k (task_request url start end') = Inr resp \<Longrightarrow>
   StatusCode resp \<noteq> 206 \<Longrightarrow>
   chunk_task w k url output start end' f = (Some (UnsuccessfulStatusCode url (StatusCode resp)), f)"
  by (simp add: chunk_task_def)

lemma chunk_task_writes:
  "snd (chunk_task w k url output start end' f) \<noteq> f \<Longrightarrow>
   \<exists>r. http_Do w k (task_request url start end') = Inr r \<and> StatusCode r = 206"
  by (auto simp: chunk_task_def split: option.splits sum.splits if_splits prod.splits)

lemma decimal_nonempty: "decimal n \<noteq> []"
  by (subst decimal.simps) simp

lemma decimal_digits: "list_all is_digit (decimal n)"
proof (induction n rule: decimal.induct)
  case (1 n)
  show ?case
  proof (cases "n < 10")
    case True
    then show ?thesis by (subst decimal.simps) (simp add: is_digit_def)
  next
    case False
    have "n mod 10 < 10" by simp
    then have "is_digit (char_of (48 + n mod 10))" by (simp add: is_digit_def)
    with False "1.IH" show ?thesis by (subst decimal.simps) simp
  qed
qed

lemma digits_value_append:
  "digits_value a (xs @ ys) = digits_value (digits_value a xs) ys"
  by (induction xs arbitrary: a) simp_all

lemma digits_value_decimal: "digits_value 0 (decimal n) = n"
proof (induction n rule: decimal.induct)
  case (1 n)
  show ?case
  proof (cases "n < 10")
    case True
    then show ?thesis by (subst decimal.simps) simp
  next
    case False
    have "n mod 10 < 10" by simp
    then have d: "of_char (char_of (48 + n mod 10) :: char) - 48 = n mod 10" by simp
    have "digits_value 0 (decimal n) = digits_value (n div 10) [char_of (48 + n mod 10)]"
      using False "1.IH" by (subst decimal.simps) (simp add: digits_value_append)
    also have "\<dots> = n div 10 * 10 + n mod 10" using d by simp
    finally show ?thesis by simp
  qed
qed

lemma ParseUint_decimal: "ParseUint (decimal (unat (x :: 64 word))) = Inr x"
proof -
  have "unat x < 2 ^ 64" using unsigned_less [of x] by simp
  then show ?thesis
    by (simp add: ParseUint_Inr_iff decimal_nonempty decimal_digits digits_value_decimal)
qed

lemma chunk_task_serving_only:
  "chunk_task (serving_only (chunkHeader start end') w) k url output start end' f =
   chunk_task w k url output start end' f"
  by (simp add: chunk_task_def serving_only_def task_request_def Seek_def
           cong: option.case_cong sum.case_cong if_cong)

lemma chunk_task_serving_other:
  "http_NewRequest w url = None \<Longrightarrow> h \<noteq> chunkHeader start end' \<Longrightarrow>
   chunk_task (serving_only h w) k url output start end' f =
     (Some (FailedToMakeRequest url ''range not served''), f)"
  by (simp add: chunk_task_def serving_only_def task_request_def)

lemma chunk_task_echo:
  "http_NewRequest w url = None \<Longrightarrow>
   chunk_task (echoing_range w) k url output start end' f =
     (Some (FailedToMakeRequest url (chunkHeader start end')), f)"
  by (simp add: chunk_task_def echoing_range_def task_request_def)

lemma chunk_task_report_independent:
  "fst (chunk_task w k url output start end' f) = fst (chunk_task w k url output start end' g)"
  by (simp add: chunk_task_def split: option.splits sum.splits prod.splits)

text \<open>
  The general shape of a failing run: when the reports of the tasks \<open>before\<close> are all
  successes and task \<open>k\<close> reports a failure, the call returns that failure and never
  receives the reports of the tasks \<open>after\<close>.
\<close>

lemma DownloadChunks_stops_at_failure:
  assumes created: "os_Create w output = None"
    and valid: "valid_schedule (length chunks) (before @ k # after)"
    and ok: "\<forall>j \<in> set before. task_report w j url output (chunks ! j) = None"
    and bad: "task_report w k url output (chunks ! k) = Some e"
  shows "DownloadChunks w (before @ k # after) url chunks output =
           Some \<lparr>returned = Some e, launched = length chunks, blocked = after\<rparr>"
proof -
  let ?f = "\<lambda>j. (j, task_report w j url output (chunks ! j))"
  have "dropWhile (\<lambda>r. snd r = None) (map ?f before @ map ?f (k # after)) =
        dropWhile (\<lambda>r. snd r = None) (map ?f (k # after))"
    using ok by (intro dropWhile_append2) auto
  also have "\<dots> = ?f k # map ?f after" using bad by simp
  finally have "dropWhile (\<lambda>r. snd r = None) (map ?f (before @ k # after)) = ?f k # map ?f after"
    by simp
  then show ?thesis
    using bad unfolding DownloadChunks_created [OF created valid] by (simp add: comp_def)
qed

subsection \<open>The claims about the coordinator\<close>

text \<open>
  C4.  In a chunk task, a response whose status is not 206 (200 included) makes the
  task report an error for its chunk, the unsuccessful status code, and leaves the
  output file as it was; a task that changes the file has received a 206 response.
\<close>

theorem chunk_task_rejects_non_206:
  "(http_NewRequest w url = None \<and> http_Do w k (task_request url start end') = Inr resp
      \<and> StatusCode resp \<noteq> 206 \<longrightarrow>
      chunk_task w k url output start end' f =
        (Some (UnsuccessfulStatusCode url (StatusCode resp)), f)
      \<and> task_report w k url output \<lparr>Start = start, End = end'\<rparr> =
        Some (UnsuccessfulStatusCode url (StatusCode resp)))
   \<and> (snd (chunk_task w k url output start end' f) \<noteq> f \<longrightarrow>
      (\<exists>r. http_Do w k (task_request url start end') = Inr r \<and> StatusCode r = 206))"
  using chunk_task_status [of w url k start end' resp "output" f]
    chunk_task_status [of w url k start end' resp "output" "[]"]
    chunk_task_writes [of w k url "output" start end' f]
  by (auto simp: task_report_def)

theorem chunk_task_rejects_non_206_witness:
  "http_NewRequest (world_ignoring_range 0) ''http://host/file'' = None
   \<and> http_Do (world_ignoring_range 0) 0 (task_request ''http://host/file'' 0 500) =
       Inr \<lparr>StatusCode = 200, Body = [1, 2, 3]\<rparr>
   \<and> (200 :: int) \<noteq> 206
   \<and> chunk_task (world_ignoring_range 0) 0 ''http://host/file'' ''out'' 0 500 [9, 9] =
       (Some (UnsuccessfulStatusCode ''http://host/file'' 200), [9, 9])
   \<and> snd (chunk_task world_ok 1 ''http://host/file'' ''out'' 3 5 [9, 9]) = [9, 9, 0, 4, 5]
   \<and> (\<exists>r. http_Do world_ok 1 (task_request ''http://host/file'' 3 5) = Inr r \<and> StatusCode r = 206)"
proof -
  have a: "http_NewRequest (world_ignoring_range 0) ''http://host/file'' = None"
    by (simp add: world_ignoring_range_def world_ok_def)
  have b: "http_Do (world_ignoring_range 0) 0 (task_request ''http://host/file'' 0 500) =
       Inr \<lparr>StatusCode = 200, Body = [1, 2, 3]\<rparr>"
    by (simp add: world_ignoring_range_def world_ok_def)
  have c: "snd (chunk_task world_ok 1 ''http://host/file'' ''out'' 3 5 [9, 9]) = [9, 9, 0, 4, 5]"
    by (simp add: chunk_task_def world_ok_def Seek_def write_at_def)
  show ?thesis
    using chunk_task_rejects_non_206 [of "world_ignoring_range 0" "''http://host/file''" 0 0 500
        "\<lparr>StatusCode = 200, Body = [1, 2, 3]\<rparr>" "''out''" "[9, 9]"]
      chunk_task_rejects_non_206 [of world_ok "''http://host/file''" 1 3 5
        "\<lparr>StatusCode = 200, Body = [1, 2, 3]\<rparr>" "''out''" "[9, 9]"]
      a b c
    by simp
qed

text \<open>
  C7.  The request the task sends for the chunk \<open>{start, end}\<close> carries the one header
  \<^verbatim>\<open>Range: bytes=start-end\<close>, both numbers in decimal; the end bound is the planner's
  \<open>End\<close>, unchanged: read back as a decimal number it is \<open>End\<close> again.  The task does
  send this request, and no other: a transport that echoes the \<^verbatim>\<open>Range\<close> header it is
  handed gets exactly this string from the task; a world that serves only requests with
  this header gives the task the same outcome, and a world that serves only requests
  with any other header makes the task fail in the transport.  For the plan of 1000
  bytes and 3 workers the headers are \<^verbatim>\<open>bytes=0-333\<close>, \<^verbatim>\<open>bytes=333-666\<close> and
  \<^verbatim>\<open>bytes=666-1000\<close>.
\<close>

theorem chunk_task_Range_header:
  "Header (task_request url (Start c) (End c)) =
     [(''Range'', ''bytes='' @ decimal (unat (Start c)) @ ''-'' @ decimal (unat (End c)))]
   \<and> ParseUint (decimal (unat (Start c))) = Inr (Start c)
   \<and> ParseUint (decimal (unat (End c))) = Inr (End c)
   \<and> (http_NewRequest w url = None \<longrightarrow>
        chunk_task (echoing_range w) k url output (Start c) (End c) f =
          (Some (FailedToMakeRequest url
                   (''bytes='' @ decimal (unat (Start c)) @ ''-'' @ decimal (unat (End c)))), f))
   \<and> chunk_task
        (serving_only (''bytes='' @ decimal (unat (Start c)) @ ''-'' @ decimal (unat (End c))) w)
        k url output (Start c) (End c) f
      = chunk_task w k url output (Start c) (End c) f
   \<and> (http_NewRequest w url = None
        \<and> h \<noteq> ''bytes='' @ decimal (unat (Start c)) @ ''-'' @ decimal (unat (End c)) \<longrightarrow>
        chunk_task (serving_only h w) k url output (Start c) (End c) f =
          (Some (FailedToMakeRequest url ''range not served''), f))
   \<and> map (\<lambda>c. chunkHeader (Start c) (End c))
        [\<lparr>Start = 0, End = 333\<rparr>, \<lparr>Start = 333, End = 666\<rparr>, \<lparr>Start = 666, End = 1000\<rparr>]
      = [''bytes=0-333'', ''bytes=333-666'', ''bytes=666-1000'']"
proof -
  have ex: "map (\<lambda>c. chunkHeader (Start c) (End c))
        [\<lparr>Start = 0, End = 333\<rparr>, \<lparr>Start = 333, End = 666\<rparr>, \<lparr>Start = 666, End = 1000\<rparr>]
      = [''bytes=0-333'', ''bytes=333-666'', ''bytes=666-1000'']"
    by code_simp
  have hd: "chunkHeader (Start c) (End c) =
      ''bytes='' @ decimal (unat (Start c)) @ ''-'' @ decimal (unat (End c))"
    by (simp add: chunkHeader_def)
  show ?thesis
    using ex chunk_task_serving_only [of "Start c" "End c" w k url "output" f]
      chunk_task_serving_other [of w url h "Start c" "End c" k "output" f]
      chunk_task_echo [of w url k "output" "Start c" "End c" f]
    unfolding hd
    by (simp add: task_request_def chunkHeader_def ParseUint_decimal)
qed

theorem chunk_task_Range_header_witness:
  "http_NewRequest world_ok ''http://host/file'' = None
   \<and> ''bytes=333-665'' \<noteq> ''bytes=333-666''
   \<and> chunkHeader 333 666 = ''bytes=333-666''
   \<and> chunk_task (echoing_range world_ok) 0 ''http://host/file'' ''out'' 333 666 [9, 9] =
       (Some (FailedToMakeRequest ''http://host/file'' ''bytes=333-666''), [9, 9])
   \<and> chunk_task (serving_only ''bytes=333-666'' world_ok) 0 ''http://host/file'' ''out'' 333 666 [9, 9]
       = chunk_task world_ok 0 ''http://host/file'' ''out'' 333 666 [9, 9]
   \<and> chunk_task (serving_only ''bytes=333-665'' world_ok) 0 ''http://host/file'' ''out'' 333 666 [9, 9]
       = (Some (FailedToMakeRequest ''http://host/file'' ''range not served''), [9, 9])"
proof -
  have n: "http_NewRequest world_ok ''http://host/file'' = None" by (simp add: world_ok_def)
  have d: "''bytes='' @ decimal (unat (333 :: 64 word)) @ ''-'' @ decimal (unat (666 :: 64 word))
             = ''bytes=333-666''"
    by code_simp
  have h: "chunkHeader 333 666 = ''bytes=333-666''" using d by (simp add: chunkHeader_def)
  have ne: "''bytes=333-665'' \<noteq> ''bytes=333-666''" by simp
  from chunk_task_Range_header [of "''http://host/file''" "\<lparr>Start = 333, End = 666\<rparr>" world_ok 0
      "''out''" "[9, 9]" "''bytes=333-665''"] n h ne
  show ?thesis unfolding DownloadChunk.simps d by simp
qed

text \<open>
  C5, as the claim states it, fails in two places.  An error need not carry the URL, an
  offset range or a status code: a task that fails on the seek makes the call return
  the writing error, which carries the output path and the cause.  And a non-nil result
  need not come from a task: when the output file cannot be created the call returns an
  error though no task was launched.
\<close>

theorem DownloadChunks_error_context_counterexample:
  "DownloadChunks world_seek_fails [0] ''http://host/file'' [\<lparr>Start = 0, End = 10\<rparr>] ''out''
     = Some \<lparr>returned = Some (UnsuccessfulWriting ''out'' ''input/output error''),
             launched = 1, blocked = []\<rparr>
   \<and> error_detail (UnsuccessfulWriting ''out'' ''input/output error'') = [Path ''out'', Cause]
   \<and> DownloadChunks world_no_file [0] ''http://host/file'' [\<lparr>Start = 0, End = 10\<rparr>] ''out''
     = Some \<lparr>returned = Some (FailedToCreateFile ''out'' ''permission denied''),
             launched = 0, blocked = []\<rparr>"
  by code_simp

text \<open>
  C5, amended.  For every schedule that delivers each task's report once: when the
  output file is created, \<^verbatim>\<open>DownloadChunks\<close> returns, having started one task per
  chunk; it returns \<^verbatim>\<open>nil\<close> if and only if every task reports success; otherwise it
  returns the first failure in completion order, which is the report of one of the tasks.
  That error names its stage (request creation, transport, status check or writing); for
  the first three it carries the URL, for the status check also the status code, and for
  the writing stage it carries the output path instead; no error carries an offset range.
  When the output file cannot be created, no task is launched and the error of the
  creation is returned.
\<close>

theorem DownloadChunks_first_failure:
  assumes "valid_schedule (length chunks) schedule"
  shows "(os_Create w output = None \<longrightarrow>
           (\<exists>d. DownloadChunks w schedule url chunks output = Some d
              \<and> launched d = length chunks
              \<and> (returned d = None \<longleftrightarrow>
                   (\<forall>k \<in> {..< length chunks}. task_report w k url output (chunks ! k) = None))
              \<and> returned d = first_failure w schedule url chunks output
              \<and> (\<forall>e. returned d = Some e \<longrightarrow>
                   (\<exists>k \<in> {..< length chunks}. task_report w k url output (chunks ! k) = Some e)
                   \<and> (error_stage e = RequestCreation \<or> error_stage e = Transport
                        \<or> error_stage e = StatusCheck \<or> error_stage e = Writing)
                   \<and> (error_stage e = Writing \<longrightarrow> error_detail e = [Path output, Cause])
                   \<and> (error_stage e \<noteq> Writing \<longrightarrow> hd (error_detail e) = Url url)
                   \<and> (error_stage e = StatusCheck \<longrightarrow>
                        (\<exists>code. error_detail e = [Url url, Status code]))
                   \<and> (\<forall>a b. Offsets a b \<notin> set (error_detail e)))))
       \<and> (\<forall>err. os_Create w output = Some err \<longrightarrow>
             DownloadChunks w schedule url chunks output =
               Some \<lparr>returned = Some (FailedToCreateFile output err), launched = 0, blocked = []\<rparr>)"
proof (intro conjI impI allI)
  assume created: "os_Create w output = None"
  from DownloadChunks_returned [OF created assms, of url]
  obtain d where run: "DownloadChunks w schedule url chunks output = Some d"
    and l: "launched d = length chunks"
    and ff: "returned d = first_failure w schedule url chunks output"
    and none: "returned d = None \<longleftrightarrow>
           (\<forall>k \<in> {..< length chunks}. task_report w k url output (chunks ! k) = None)"
    and some: "\<And>e. returned d = Some e \<Longrightarrow>
           \<exists>k \<in> {..< length chunks}. task_report w k url output (chunks ! k) = Some e"
    by blast
  have detail: "(\<exists>k \<in> {..< length chunks}. task_report w k url output (chunks ! k) = Some e)
                   \<and> (error_stage e = RequestCreation \<or> error_stage e = Transport
                        \<or> error_stage e = StatusCheck \<or> error_stage e = Writing)
                   \<and> (error_stage e = Writing \<longrightarrow> error_detail e = [Path output, Cause])
                   \<and> (error_stage e \<noteq> Writing \<longrightarrow> hd (error_detail e) = Url url)
                   \<and> (error_stage e = StatusCheck \<longrightarrow>
                        (\<exists>code. error_detail e = [Url url, Status code]))
                   \<and> (\<forall>a b. Offsets a b \<notin> set (error_detail e))"
    if "returned d = Some e" for e
  proof -
    from some [OF that] obtain k where k: "k \<in> {..< length chunks}"
      and rep: "task_report w k url output (chunks ! k) = Some e" by blast
    from task_report_error [OF rep] no_offsets [of _ _ e] k rep show ?thesis by auto
  qed
  show "\<exists>d. DownloadChunks w schedule url chunks output = Some d
              \<and> launched d = length chunks
              \<and> (returned d = None \<longleftrightarrow>
                   (\<forall>k \<in> {..< length chunks}. task_report w k url output (chunks ! k) = None))
              \<and> returned d = first_failure w schedule url chunks output
              \<and> (\<forall>e. returned d = Some e \<longrightarrow>
                   (\<exists>k \<in> {..< length chunks}. task_report w k url output (chunks ! k) = Some e)
                   \<and> (error_stage e = RequestCreation \<or> error_stage e = Transport
                        \<or> error_stage e = StatusCheck \<or> error_stage e = Writing)
                   \<and> (error_stage e = Writing \<longrightarrow> error_detail e = [Path output, Cause])
                   \<and> (error_stage e \<noteq> Writing \<longrightarrow> hd (error_detail e) = Url url)
                   \<and> (error_stage e = StatusCheck \<longrightarrow>
                        (\<exists>code. error_detail e = [Url url, Status code]))
                   \<and> (\<forall>a b. Offsets a b \<notin> set (error_detail e)))"
  proof (intro exI [of _ d] conjI allI impI)
    show "DownloadChunks w schedule url chunks output = Some d" by (rule run)
    show "launched d = length chunks" by (rule l)
    show "returned d = None \<longleftrightarrow>
           (\<forall>k \<in> {..< length chunks}. task_report w k url output (chunks ! k) = None)"
      by (rule none)
    show "returned d = first_failure w schedule url chunks output" by (rule ff)
  qed (use detail in blast)+
next
  fix err assume "os_Create w output = Some err"
  then show "DownloadChunks w schedule url chunks output =
               Some \<lparr>returned = Some (FailedToCreateFile output err), launched = 0, blocked = []\<rparr>"
    by (simp add: DownloadChunks_def)
qed

theorem DownloadChunks_first_failure_witness:
  "valid_schedule (length [\<lparr>Start = 0, End = 500\<rparr>, \<lparr>Start = 500, End = (1000 :: 64 word)\<rparr>]) [1, 0]
   \<and> os_Create world_all_failing ''out'' = None
   \<and> DownloadChunks world_all_failing [1, 0] ''http://host/file''
        [\<lparr>Start = 0, End = 500\<rparr>, \<lparr>Start = 500, End = 1000\<rparr>] ''out''
      = Some \<lparr>returned = Some (UnsuccessfulStatusCode ''http://host/file'' 501),
              launched = 2, blocked = [0]\<rparr>
   \<and> first_failure world_all_failing [1, 0] ''http://host/file''
        [\<lparr>Start = 0, End = 500\<rparr>, \<lparr>Start = 500, End = 1000\<rparr>] ''out''
      = Some (UnsuccessfulStatusCode ''http://host/file'' 501)
   \<and> task_report world_all_failing 0 ''http://host/file'' ''out'' \<lparr>Start = 0, End = 500\<rparr>
      = Some (UnsuccessfulStatusCode ''http://host/file'' 500)
   \<and> DownloadChunks world_ok [1, 0] ''http://host/file''
        [\<lparr>Start = 0, End = 500\<rparr>, \<lparr>Start = 500, End = 1000\<rparr>] ''out''
      = Some \<lparr>returned = None, launched = 2, blocked = []\<rparr>"
proof -
  let ?chunks = "[\<lparr>Start = 0, End = 500\<rparr>, \<lparr>Start = 500, End = (1000 :: 64 word)\<rparr>]"
  have v: "valid_schedule (length ?chunks) [1, 0]" by code_simp
  have c: "os_Create world_all_failing ''out'' = None" by code_simp
  have r: "DownloadChunks world_all_failing [1, 0] ''http://host/file'' ?chunks ''out''
      = Some \<lparr>returned = Some (UnsuccessfulStatusCode ''http://host/file'' 501),
              launched = 2, blocked = [0]\<rparr>" by code_simp
  have t: "task_report world_all_failing 0 ''http://host/file'' ''out'' \<lparr>Start = 0, End = 500\<rparr>
      = Some (UnsuccessfulStatusCode ''http://host/file'' 500)" by code_simp
  have k: "DownloadChunks world_ok [1, 0] ''http://host/file'' ?chunks ''out''
      = Some \<lparr>returned = None, launched = 2, blocked = []\<rparr>" by code_simp
  from DownloadChunks_first_failure [OF v, of world_all_failing "''out''" "''http://host/file''"] c r
  have "first_failure world_all_failing [1, 0] ''http://host/file'' ?chunks ''out''
      = Some (UnsuccessfulStatusCode ''http://host/file'' 501)"
    by auto
  with v c r t k show ?thesis by simp
qed

text \<open>
  C6.  The claim asks that every launched task has reported before the call returns,
  also after a failure.  The receive loop returns at the first error it receives:
  with four chunks, a server that answers the second task with 200, and the reports
  delivered in chunk order, the call returns after two receives and the third and
  fourth tasks stay blocked in their send on the unbuffered channel.
\<close>

theorem DownloadChunks_early_return_blocks_tasks:
  "GetDownloadChunks 1000 4 =
     Inr [\<lparr>Start = 0, End = 250\<rparr>, \<lparr>Start = 250, End = 500\<rparr>,
          \<lparr>Start = 500, End = 750\<rparr>, \<lparr>Start = 750, End = 1000\<rparr>]
   \<and> valid_schedule 4 [0, 1, 2, 3]
   \<and> DownloadChunks (world_ignoring_range 1) [0, 1, 2, 3] ''http://host/file''
        [\<lparr>Start = 0, End = 250\<rparr>, \<lparr>Start = 250, End = 500\<rparr>,
         \<lparr>Start = 500, End = 750\<rparr>, \<lparr>Start = 750, End = 1000\<rparr>] ''out''
      = Some \<lparr>returned = Some (UnsuccessfulStatusCode ''http://host/file'' 200),
              launched = 4, blocked = [2, 3]\<rparr>"
proof -
  have "plan_of 1000 4 =
     [\<lparr>Start = 0, End = 250\<rparr>, \<lparr>Start = 250, End = 500\<rparr>,
      \<lparr>Start = 500, End = 750\<rparr>, \<lparr>Start = 750, End = 1000\<rparr>]"
    by code_simp
  then have plan: "GetDownloadChunks 1000 4 =
     Inr [\<lparr>Start = 0, End = 250\<rparr>, \<lparr>Start = 250, End = 500\<rparr>,
          \<lparr>Start = 500, End = 750\<rparr>, \<lparr>Start = 750, End = 1000\<rparr>]"
    by (simp add: GetDownloadChunks_plan_of makeslice_accepts_small)
  have sched: "valid_schedule 4 [0, 1, 2, 3]" by code_simp
  have run: "DownloadChunks (world_ignoring_range 1) [0, 1, 2, 3] ''http://host/file''
        [\<lparr>Start = 0, End = 250\<rparr>, \<lparr>Start = 250, End = 500\<rparr>,
         \<lparr>Start = 500, End = 750\<rparr>, \<lparr>Start = 750, End = 1000\<rparr>] ''out''
      = Some \<lparr>returned = Some (UnsuccessfulStatusCode ''http://host/file'' 200),
              launched = 4, blocked = [2, 3]\<rparr>"
    by code_simp
  from plan sched run show ?thesis by (intro conjI)
qed

end
